theory Spec2Isabelle
  imports
    Complex_Main
    "HOL-Library.Product_Lexorder"
    "HOL-Library.List_Lexorder"
    "HOL-Library.Char_ord"
    "HOL-Library.Multiset"
begin

section \<open>Numeric values with a missing marker\<close>

text \<open>
  The scripts compute on floating-point cells that are either a number or the missing
  marker NaN. A cell is modelled as \<open>Val r\<close> for a real number \<open>r\<close>, or \<open>NaN\<close>.
  Arithmetic is the arithmetic of the reals (rounding is outside the model); an
  operation with a NaN operand gives NaN, and every comparison with NaN is false, as in
  Python and numpy.
\<close>

datatype cell = NaN | Val real

fun fsub :: "cell \<Rightarrow> cell \<Rightarrow> cell" where
  "fsub (Val a) (Val b) = Val (a - b)"
| "fsub _ _ = NaN"

fun fadd :: "cell \<Rightarrow> cell \<Rightarrow> cell" where
  "fadd (Val a) (Val b) = Val (a + b)"
| "fadd _ _ = NaN"

fun fmul :: "cell \<Rightarrow> cell \<Rightarrow> cell" where
  "fmul (Val a) (Val b) = Val (a * b)"
| "fmul _ _ = NaN"

text \<open>Division is only used with the non-zero constant \<open>BASELINE_CHL\<close> as divisor.\<close>

fun fdiv :: "cell \<Rightarrow> cell \<Rightarrow> cell" where
  "fdiv (Val a) (Val b) = Val (a / b)"
| "fdiv _ _ = NaN"

fun flt :: "cell \<Rightarrow> real \<Rightarrow> bool" where
  "flt (Val a) b = (a < b)"
| "flt NaN b = False"

fun fgt :: "cell \<Rightarrow> real \<Rightarrow> bool" where
  "fgt (Val a) b = (a > b)"
| "fgt NaN b = False"

fun isnan :: "cell \<Rightarrow> bool" where
  "isnan NaN = True"
| "isnan (Val a) = False"

text \<open>The non-missing numbers of a list of cells, in order.\<close>

fun valid :: "cell list \<Rightarrow> real list" where
  "valid [] = []"
| "valid (NaN # cs) = valid cs"
| "valid (Val a # cs) = a # valid cs"

text \<open>\<open>.mean(skipna=True)\<close>: the mean of the non-missing cells, NaN when there is none.\<close>

definition nanmean :: "cell list \<Rightarrow> cell" where
  "nanmean cs = (if valid cs = [] then NaN else Val (sum_list (valid cs) / real (length (valid cs))))"

text \<open>\<open>.sum()\<close> with xarray's default \<open>skipna\<close> for floats: missing cells count as 0.\<close>

definition nansum :: "cell list \<Rightarrow> cell" where
  "nansum cs = Val (sum_list (valid cs))"

text \<open>\<open>.min()\<close> over a series, skipping missing cells; NaN when there is none.\<close>

definition nanmin :: "cell list \<Rightarrow> cell" where
  "nanmin cs = (case valid cs of [] \<Rightarrow> NaN | a # as \<Rightarrow> Val (fold min as a))"

section \<open>Diagnostic classification\<close>

subsection \<open>output.py: eco-health status and catch forecast\<close>

datatype status = STABLE | STRESSED | CRITICAL

text \<open>
  \<^verbatim>\<open>status = "STABLE"\<close>, then \<^verbatim>\<open>if ppi < -20: status = "STRESSED"\<close>, then
  \<^verbatim>\<open>if ppi < -50: status = "CRITICAL"\<close>: two successive assignments, the later one
  overriding the earlier.
\<close>

definition ppi_status :: "cell \<Rightarrow> status" where
  "ppi_status ppi =
     (let status = STABLE;
          status = (if flt ppi (- 20) then STRESSED else status);
          status = (if flt ppi (- 50) then CRITICAL else status)
      in status)"

definition BASELINE_CHL :: cell where
  "BASELINE_CHL = Val 2.0"

definition TROPHIC_SENSITIVITY :: cell where
  "TROPHIC_SENSITIVITY = Val 0.8"

text \<open>
  \<^verbatim>\<open>yield_gap_percent = ppi_anomaly * TROPHIC_SENSITIVITY * 100\<close>, dampened by
  \<open>0.2\<close> when positive.
\<close>

definition yield_gap :: "cell \<Rightarrow> cell" where
  "yield_gap ppi_anomaly =
     (let yield_gap_percent = fmul (fmul ppi_anomaly TROPHIC_SENSITIVITY) (Val 100)
      in if fgt yield_gap_percent 0 then fmul yield_gap_percent (Val 0.2)
         else yield_gap_percent)"

text \<open>
  The forecast column of the report: \<^verbatim>\<open>f"{forecast:.1f}% Decline"\<close>, replaced by
  \<^verbatim>\<open>f"+{forecast:.1f}% Growth"\<close> when the forecast is positive. The formatted
  number is kept as a value.
\<close>

datatype forecast_str = Decline cell | Growth cell

definition forecast_string :: "cell \<Rightarrow> forecast_str" where
  "forecast_string forecast = (if fgt forecast 0 then Growth forecast else Decline forecast)"

subsection \<open>dec27\_code.py: bloom and oxygen assessment\<close>

datatype bloom_status = STRONG_BLOOM | NORMAL_BLOOM | BLOOM_FAILURE

definition bloom_class :: "cell \<Rightarrow> bloom_status" where
  "bloom_class anomaly =
     (if fgt anomaly 20 then STRONG_BLOOM
      else if fgt anomaly 0 then NORMAL_BLOOM
      else BLOOM_FAILURE)"

datatype oxygen_status = ALERT_HYPOXIC | CAUTION_STRESS | HEALTHY

definition oxygen_class :: "cell \<Rightarrow> oxygen_status" where
  "oxygen_class min_o2 =
     (if flt min_o2 60 then ALERT_HYPOXIC
      else if flt min_o2 120 then CAUTION_STRESS
      else HEALTHY)"

subsection \<open>bio\_3d.py: oxygen safety\<close>

datatype oxygen_safety = WARNING_HYPOXIC | OXYGEN_SAFE

definition oxygen_safety_class :: "cell \<Rightarrow> oxygen_safety" where
  "oxygen_safety_class min_o2 = (if flt min_o2 60 then WARNING_HYPOXIC else OXYGEN_SAFE)"

section \<open>Dates and filenames (processing.py, output.py)\<close>

text \<open>
  A timestamp recovered from a filename is a calendar date (year, month, day); the
  lexicographic order on the triple is the chronological order.
\<close>

type_synonym date = "nat \<times> nat \<times> nat"

definition is_leap :: "nat \<Rightarrow> bool" where
  "is_leap y = (y mod 4 = 0 \<and> (y mod 100 \<noteq> 0 \<or> y mod 400 = 0))"

definition days_in_month :: "nat \<Rightarrow> nat \<Rightarrow> nat" where
  "days_in_month y m =
     (if m = 2 then (if is_leap y then 29 else 28)
      else if m = 4 \<or> m = 6 \<or> m = 9 \<or> m = 11 then 30 else 31)"

definition valid_date :: "date \<Rightarrow> bool" where
  "valid_date dt =
     (case dt of (y, m, d) \<Rightarrow> 1 \<le> m \<and> m \<le> 12 \<and> 1 \<le> d \<and> d \<le> days_in_month y m)"

text \<open>The day of the year of a date: 1 for January 1.\<close>

definition yearday :: "date \<Rightarrow> nat" where
  "yearday dt = (case dt of (y, m, d) \<Rightarrow> sum_list (map (days_in_month y) [1..<m]) + d)"

text \<open>
  The date that lies \<open>j - 1\<close> days after the first of month \<open>m\<close> of year \<open>y\<close>
  (\<^verbatim>\<open>date.fromordinal((julian - 1) + date(year, 1, 1).toordinal())\<close> for \<open>m = 1\<close>);
  the count runs on into the next year.
\<close>

function from_julian :: "nat \<Rightarrow> nat \<Rightarrow> nat \<Rightarrow> date" where
  "from_julian y m j =
     (if j \<le> days_in_month y m then (y, m, j)
      else if 12 \<le> m then from_julian (y + 1) 1 (j - days_in_month y m)
      else from_julian y (m + 1) (j - days_in_month y m))"
  by pat_completeness auto
termination
proof (relation "measure (\<lambda>(y, m, j). j)")
  show "wf (measure (\<lambda>(y, m, j). j))" by simp
next
  fix y m j :: nat
  assume "\<not> j \<le> days_in_month y m"
  moreover have "28 \<le> days_in_month y m" by (simp add: days_in_month_def)
  ultimately show "((y + 1, 1, j - days_in_month y m), (y, m, j)) \<in> measure (\<lambda>(y, m, j). j)"
    by simp
next
  fix y m j :: nat
  assume "\<not> j \<le> days_in_month y m"
  moreover have "28 \<le> days_in_month y m" by (simp add: days_in_month_def)
  ultimately show "((y, m + 1, j - days_in_month y m), (y, m, j)) \<in> measure (\<lambda>(y, m, j). j)"
    by simp
qed

declare from_julian.simps [simp del]

text \<open>
  Characters are bytes; \<^verbatim>\<open>\d\<close> is modelled on the ASCII digits (the regex would also
  accept other Unicode decimal digits, which filenames of the data products do not have).
\<close>

definition is_digit :: "char \<Rightarrow> bool" where
  "is_digit c = (CHR ''0'' \<le> c \<and> c \<le> CHR ''9'')"

definition digit_val :: "char \<Rightarrow> nat" where
  "digit_val c = of_char c - of_char CHR ''0''"

text \<open>\<^verbatim>\<open>int(s)\<close> on a string of digits.\<close>

definition int_of_digits :: "string \<Rightarrow> nat" where
  "int_of_digits s = foldl (\<lambda>n c. 10 * n + digit_val c) 0 s"

text \<open>\<^verbatim>\<open>os.path.basename\<close>: what follows the last slash.\<close>

definition basename :: "string \<Rightarrow> string" where
  "basename p = rev (takeWhile (\<lambda>c. c \<noteq> CHR ''/'') (rev p))"

text \<open>
  \<^verbatim>\<open>re.search(r'(2025)(\d{2})(\d{2})', filename)\<close>: the leftmost position where
  \<open>2025\<close> is followed by four digits; the result is \<^verbatim>\<open>group(0)\<close>, the eight
  characters matched.
\<close>

definition ymd_here :: "string \<Rightarrow> bool" where
  "ymd_here s = (take 4 s = ''2025'' \<and> 8 \<le> length s \<and> list_all is_digit (take 4 (drop 4 s)))"

fun match_ymd :: "string \<Rightarrow> string option" where
  "match_ymd [] = None"
| "match_ymd (c # cs) = (if ymd_here (c # cs) then Some (take 8 (c # cs)) else match_ymd cs)"

text \<open>
  \<^verbatim>\<open>re.search(r'(2025)(\d{3})', filename)\<close>: the leftmost position where \<open>2025\<close> is
  followed by three digits; the result is the pair of \<^verbatim>\<open>group(1)\<close> and
  \<^verbatim>\<open>group(2)\<close>.
\<close>

definition julian_here :: "string \<Rightarrow> bool" where
  "julian_here s = (take 4 s = ''2025'' \<and> 7 \<le> length s \<and> list_all is_digit (take 3 (drop 4 s)))"

fun match_julian :: "string \<Rightarrow> (string \<times> string) option" where
  "match_julian [] = None"
| "match_julian (c # cs) =
     (if julian_here (c # cs) then Some (take 4 (c # cs), take 3 (drop 4 (c # cs)))
      else match_julian cs)"

datatype error = ValueError | KeyError | IndexError | OSError

text \<open>
  \<^verbatim>\<open>pd.to_datetime(date_str, format='%Y%m%d')\<close> on the eight digits the regex hands
  over (they always begin with \<open>2025\<close>): the whole string has to be consumed, so month
  and day take two digits each, and the three fields have to form a calendar date;
  otherwise pandas raises a \<^verbatim>\<open>ValueError\<close>.
\<close>

definition ymd_fields :: "string \<Rightarrow> date" where
  "ymd_fields s =
     (int_of_digits (take 4 s), int_of_digits (take 2 (drop 4 s)), int_of_digits (drop 6 s))"

definition to_datetime_Ymd :: "string \<Rightarrow> error + date" where
  "to_datetime_Ymd s =
     (if length s = 8 \<and> list_all is_digit s \<and> valid_date (ymd_fields s)
      then Inr (ymd_fields s) else Inl ValueError)"

text \<open>
  \<^verbatim>\<open>pd.to_datetime(year * 1000 + day_of_year, format='%Y%j')\<close>: the integer is
  converted to its decimal string, whose first four digits are the year and whose last
  three are the day of the year, accepted from \<open>001\<close> to \<open>366\<close>; the date is counted
  from January 1 of the year.
\<close>

definition to_datetime_Yj :: "nat \<Rightarrow> error + date" where
  "to_datetime_Yj n =
     (let y = n div 1000; j = n mod 1000
      in if 1000 \<le> y \<and> y \<le> 9999 \<and> 1 \<le> j \<and> j \<le> 366
         then Inr (from_julian y 1 j) else Inl ValueError)"

text \<open>
  The timestamp of a filename, as both loaders compute it: \<open>Inr None\<close> when neither
  pattern matches (\<^verbatim>\<open>timestamp = None\<close>), \<open>Inl\<close> when \<^verbatim>\<open>pd.to_datetime\<close> raises.
  Both searches are evaluated; the day-of-year match is used only when the first search
  found nothing.
\<close>

definition timestamp_of :: "string \<Rightarrow> error + date option" where
  "timestamp_of filename =
     (case match_ymd filename of
        Some date_str \<Rightarrow>
          (case to_datetime_Ymd date_str of Inl e \<Rightarrow> Inl e | Inr t \<Rightarrow> Inr (Some t))
      | None \<Rightarrow>
          (case match_julian filename of
             Some (g1, g2) \<Rightarrow>
               (let year = int_of_digits g1; day_of_year = int_of_digits g2
                in case to_datetime_Yj (year * 1000 + day_of_year) of
                     Inl e \<Rightarrow> Inl e | Inr t \<Rightarrow> Inr (Some t))
           | None \<Rightarrow> Inr None))"

section \<open>Loading and merging (processing.py, output.py)\<close>

text \<open>
  A path the glob pattern matches: whether it is a regular file, and what
  \<^verbatim>\<open>xr.open_dataset\<close> gives for it (the grid of the file, or the exception raised).
  The grids are single time steps without a time dimension, as the daily products are.
\<close>

record 'g nc_file =
  path :: string
  isfile :: bool
  opened :: "error + 'g"

record 'g filesystem =
  isdir :: "string \<Rightarrow> bool"
  glob :: "string \<Rightarrow> 'g nc_file list"

datatype message =
    Loading_files
  | Note_is_directory string
  | Error_no_nc_files_found string
  | Tip_check_path
  | Found_files nat
  | Warning_could_not_parse_date string
  | Skipping_due_to_error string error
  | Error_no_valid_datasets
  | Critical_error_loading error
  | Tip_uniform_files
  | Successfully_compiled nat
  | Aggregating_weekly
  | Extracting_zones
  | Analysis_report
  | Zone_line string
  | Average_productivity cell
  | Peak_productivity cell "date option"
  | Status_low_productivity
  | Status_very_high
  | Status_healthy_normal
  | Status_no_data
  | Processing_complete
  | Loading_satellite_data
  | Error_no_files_found
  | Running_simulation
  | Governance_report
  | Report_row string cell cell status forecast_str
  | Interpretation

text \<open>
  How a stage ends: \<^verbatim>\<open>exit()\<close> with its argument, an exception nobody catches, or
  normally with a value. \<^verbatim>\<open>exit()\<close> without argument raises \<^verbatim>\<open>SystemExit(None)\<close>,
  which \<^verbatim>\<open>except Exception\<close> does not catch and which ends the process with status 0;
  an uncaught exception ends it with status 1.
\<close>

datatype 'a outcome = Exit "nat option" | Uncaught error | Done 'a

fun exit_status :: "'a outcome \<Rightarrow> nat" where
  "exit_status (Exit None) = 0"
| "exit_status (Exit (Some n)) = n"
| "exit_status (Uncaught e) = 1"
| "exit_status (Done x) = 0"

definition path_join :: "string \<Rightarrow> string \<Rightarrow> string" where
  "path_join a b = (if a = [] then b else if last a = CHR ''/'' then a @ b else a @ ''/'' @ b)"

text \<open>
  \<^verbatim>\<open>if os.path.isdir(data_folder): data_folder = os.path.join(data_folder, "*.nc")\<close>
\<close>

definition resolve_pattern :: "'g filesystem \<Rightarrow> string \<Rightarrow> string" where
  "resolve_pattern fs folder = (if isdir fs folder then path_join folder ''*.nc'' else folder)"

text \<open>\<^verbatim>\<open>sorted(glob.glob(data_folder))\<close>, then the entries that are regular files.\<close>

definition file_list :: "'g filesystem \<Rightarrow> string \<Rightarrow> 'g nc_file list" where
  "file_list fs pattern = filter isfile (sort_key path (glob fs pattern))"

subsection \<open>processing.py\<close>

definition data_folder :: string where
  "data_folder = ''Data/*.nc''"

text \<open>
  One round of the loop over the files: the state is the list \<open>datasets\<close> (each grid
  with the time coordinate it was given) and the lines printed so far.
\<close>

definition load_step :: "'g nc_file \<Rightarrow> (date \<times> 'g) list \<times> message list
    \<Rightarrow> (date \<times> 'g) list \<times> message list" where
  "load_step f st =
     (case st of (datasets, out) \<Rightarrow>
        (case opened f of
           Inl e \<Rightarrow> (datasets, out @ [Skipping_due_to_error (path f) e])
         | Inr ds_i \<Rightarrow>
             (let filename = basename (path f)
              in case timestamp_of filename of
                   Inl e \<Rightarrow> (datasets, out @ [Skipping_due_to_error (path f) e])
                 | Inr None \<Rightarrow> (datasets, out @ [Warning_could_not_parse_date filename])
                 | Inr (Some timestamp) \<Rightarrow> (datasets @ [(timestamp, ds_i)], out))))"

text \<open>
  What one file adds to \<open>datasets\<close> in either loader: its grid under its timestamp when
  it opens and its name carries a date, nothing otherwise.
\<close>

definition loaded :: "'g nc_file \<Rightarrow> (date \<times> 'g) list" where
  "loaded f =
     (case opened f of
        Inl e \<Rightarrow> []
      | Inr ds_i \<Rightarrow>
          (case timestamp_of (basename (path f)) of
             Inr (Some timestamp) \<Rightarrow> [(timestamp, ds_i)]
           | _ \<Rightarrow> []))"

text \<open>
  Step 1 of processing.py. \<open>concat_check\<close> stands for the check of \<^verbatim>\<open>xr.concat\<close>
  that the grids can be joined (\<open>Some e\<close>: it raises \<open>e\<close>); the joined dataset is the
  list of the grids in order, and \<^verbatim>\<open>sortby('time')\<close> is a stable sort on the time
  coordinate.
\<close>

definition load_and_merge :: "('g list \<Rightarrow> error option) \<Rightarrow> 'g filesystem
    \<Rightarrow> message list \<times> (date \<times> 'g) list outcome" where
  "load_and_merge concat_check fs =
     (let out = [Loading_files];
          out = (if isdir fs data_folder then out @ [Note_is_directory data_folder] else out);
          pattern = resolve_pattern fs data_folder;
          files = file_list fs pattern
      in if files = []
         then (out @ [Error_no_nc_files_found pattern, Tip_check_path], Exit None)
         else
           (case fold load_step files ([], out @ [Found_files (length files)]) of
              (datasets, out) \<Rightarrow>
                if datasets = [] then (out @ [Error_no_valid_datasets], Exit None)
                else
                  (case concat_check (map snd datasets) of
                     Some e \<Rightarrow> (out @ [Critical_error_loading e, Tip_uniform_files], Exit None)
                   | None \<Rightarrow>
                       (let ds = sort_key fst datasets
                        in (out @ [Successfully_compiled (length ds)], Done ds)))))"

subsection \<open>output.py\<close>

definition data_folder_chl :: string where
  "data_folder_chl = ''Data/Modis CHL reading/*.nc''"

text \<open>
  The loop of output.py prints nothing: a bare \<^verbatim>\<open>except\<close> skips a file that fails to
  open or whose date does not parse, and a file without a timestamp is left out.
\<close>

definition load_step_quiet :: "'g nc_file \<Rightarrow> (date \<times> 'g) list \<Rightarrow> (date \<times> 'g) list" where
  "load_step_quiet f datasets =
     (case opened f of
        Inl e \<Rightarrow> datasets
      | Inr ds_i \<Rightarrow>
          (case timestamp_of (basename (path f)) of
             Inl e \<Rightarrow> datasets
           | Inr None \<Rightarrow> datasets
           | Inr (Some timestamp) \<Rightarrow> datasets @ [(timestamp, ds_i)]))"

text \<open>
  Step 1 of output.py. \<^verbatim>\<open>xr.concat\<close> is called outside any \<^verbatim>\<open>try\<close>: on an empty
  list it raises a \<^verbatim>\<open>ValueError\<close>, which nobody catches.
\<close>

definition load_data :: "('g list \<Rightarrow> error option) \<Rightarrow> 'g filesystem
    \<Rightarrow> message list \<times> (date \<times> 'g) list outcome" where
  "load_data concat_check fs =
     (let out = [Loading_satellite_data];
          pattern = resolve_pattern fs data_folder_chl;
          files = file_list fs pattern
      in if files = [] then (out @ [Error_no_files_found], Exit None)
         else
           (let datasets = fold load_step_quiet files []
            in if datasets = [] then (out, Uncaught ValueError)
               else
                 (case concat_check (map snd datasets) of
                    Some e \<Rightarrow> (out, Uncaught e)
                  | None \<Rightarrow> (out, Done (sort_key fst datasets)))))"

text \<open>The time coordinate of an assembled dataset, \<^verbatim>\<open>ds.time\<close>.\<close>

definition time_index :: "(date \<times> 'g) list \<Rightarrow> date list" where
  "time_index ds = map fst ds"

section \<open>Selection by coordinate labels\<close>

text \<open>
  \<^verbatim>\<open>.sel(dim=slice(start, stop))\<close> selects by label on the coordinate axis of the
  dimension. xarray asks the pandas index of the axis for the positions
  (\<^verbatim>\<open>Index.slice_indexer\<close>): the left bound is looked up with side \<open>left\<close>, the right
  bound with side \<open>right\<close>, and the selection is the position range between them, empty
  when the right position is not above the left one. On an axis in ascending order a
  bound is placed by \<^verbatim>\<open>searchsorted\<close>; on an axis in descending order by
  \<^verbatim>\<open>searchsorted\<close> on the reversed axis with the side exchanged; on an axis in neither
  order a bound has to occur in the axis, in one run of positions, or the lookup raises
  \<^verbatim>\<open>KeyError\<close>.
\<close>

datatype side = Left | Right

definition searchsorted :: "'a::linorder list \<Rightarrow> 'a \<Rightarrow> side \<Rightarrow> nat" where
  "searchsorted xs v sd =
     (case sd of Left \<Rightarrow> length (filter (\<lambda>x. x < v) xs)
               | Right \<Rightarrow> length (filter (\<lambda>x. x \<le> v) xs))"

definition positions :: "'a list \<Rightarrow> 'a \<Rightarrow> nat list" where
  "positions xs v = filter (\<lambda>i. xs ! i = v) [0..<length xs]"

definition get_slice_bound :: "'a::linorder list \<Rightarrow> 'a \<Rightarrow> side \<Rightarrow> error + nat" where
  "get_slice_bound index label sd =
     (if sorted index then Inr (searchsorted index label sd)
      else if sorted (rev index)
      then Inr (length index -
                searchsorted (rev index) label (case sd of Left \<Rightarrow> Right | Right \<Rightarrow> Left))
      else (case positions index label of
              [] \<Rightarrow> Inl KeyError
            | p # ps \<Rightarrow>
                if p # ps = [p..<p + length (p # ps)]
                then Inr (case sd of Left \<Rightarrow> p | Right \<Rightarrow> p + length (p # ps))
                else Inl KeyError))"

definition slice_indexer :: "'a::linorder list \<Rightarrow> 'a \<Rightarrow> 'a \<Rightarrow> error + nat \<times> nat" where
  "slice_indexer index start stop =
     (case get_slice_bound index start Left of
        Inl e \<Rightarrow> Inl e
      | Inr i0 \<Rightarrow>
          (case get_slice_bound index stop Right of
             Inl e \<Rightarrow> Inl e
           | Inr i1 \<Rightarrow> Inr (i0, i1)))"

text \<open>The entries of a list at the positions \<open>i0\<close> up to but excluding \<open>i1\<close>.\<close>

definition isel :: "nat \<times> nat \<Rightarrow> 'b list \<Rightarrow> 'b list" where
  "isel r xs = (case r of (i0, i1) \<Rightarrow> take (i1 - i0) (drop i0 xs))"


section \<open>Weekly chlorophyll grids (processing.py, output.py)\<close>

text \<open>
  The weekly chlorophyll array: its time, latitude and longitude axes, and the cell at
  each position (time, latitude, longitude).
\<close>

record grid =
  time :: "date list"
  lat :: "real list"
  lon :: "real list"
  cells :: "nat \<Rightarrow> nat \<Rightarrow> nat \<Rightarrow> cell"

text \<open>The economic zones: name, latitude slice, longitude slice, as written in the scripts.\<close>

definition zones :: "(string \<times> (real \<times> real) \<times> (real \<times> real)) list" where
  "zones =
     [(''Mumbai'', (19.5, 18.5), (72.0, 73.0)),
      (''Ratnagiri'', (17.5, 16.5), (72.0, 73.5)),
      (''Sindhudurg'', (16.5, 15.5), (72.0, 73.5))]"

text \<open>\<^verbatim>\<open>ds_weekly.sel(lat=bounds['lat'], lon=bounds['lon'])\<close>\<close>

definition sel_lat_lon :: "grid \<Rightarrow> real \<times> real \<Rightarrow> real \<times> real \<Rightarrow> error + grid" where
  "sel_lat_lon g lat_slice lon_slice =
     (case slice_indexer (lat g) (fst lat_slice) (snd lat_slice) of
        Inl e \<Rightarrow> Inl e
      | Inr (i0, i1) \<Rightarrow>
          (case slice_indexer (lon g) (fst lon_slice) (snd lon_slice) of
             Inl e \<Rightarrow> Inl e
           | Inr (j0, j1) \<Rightarrow>
               Inr (g\<lparr>lat := isel (i0, i1) (lat g), lon := isel (j0, j1) (lon g),
                      cells := (\<lambda>t i j. cells g t (i0 + i) (j0 + j))\<rparr>)))"

text \<open>The cells of one time step, and \<^verbatim>\<open>.mean(dim=['lat', 'lon'], skipna=True)\<close>.\<close>

definition cells_at :: "grid \<Rightarrow> nat \<Rightarrow> cell list" where
  "cells_at g t =
     concat (map (\<lambda>i. map (\<lambda>j. cells g t i j) [0..<length (lon g)]) [0..<length (lat g)])"

definition zonal_mean :: "grid \<Rightarrow> (date \<times> cell) list" where
  "zonal_mean g = map (\<lambda>t. (time g ! t, nanmean (cells_at g t))) [0..<length (time g)]"

text \<open>
  The zone loop of both scripts: the selection raises on an axis it cannot slice, and
  nothing catches that.
\<close>

fun extract_zones :: "grid \<Rightarrow> (string \<times> (real \<times> real) \<times> (real \<times> real)) list
    \<Rightarrow> error + (string \<times> (date \<times> cell) list) list" where
  "extract_zones ds_weekly [] = Inr []"
| "extract_zones ds_weekly ((zone_name, lat_slice, lon_slice) # zs) =
     (case sel_lat_lon ds_weekly lat_slice lon_slice of
        Inl e \<Rightarrow> Inl e
      | Inr zone_data \<Rightarrow>
          (case extract_zones ds_weekly zs of
             Inl e \<Rightarrow> Inl e
           | Inr results \<Rightarrow> Inr ((zone_name, zonal_mean zone_data) # results)))"

subsection \<open>processing.py: the analysis report\<close>

text \<open>
  \<^verbatim>\<open>data.max()\<close> and \<^verbatim>\<open>data.idxmax()\<close> skip missing values; on a series of missing
  values only they give NaN.
\<close>

definition nanmax :: "cell list \<Rightarrow> cell" where
  "nanmax cs = (case valid cs of [] \<Rightarrow> NaN | a # as \<Rightarrow> Val (fold max as a))"

definition idxmax :: "(date \<times> cell) list \<Rightarrow> date option" where
  "idxmax ts =
     (case filter (\<lambda>p. snd p = nanmax (map snd ts) \<and> \<not> isnan (snd p)) ts of
        [] \<Rightarrow> None
      | p # ps \<Rightarrow> Some (fst p))"

definition report_zone :: "string \<times> (date \<times> cell) list \<Rightarrow> message list" where
  "report_zone r =
     (case r of (zone, data) \<Rightarrow>
        (let peak_val = nanmax (map snd data);
             peak_date = idxmax data;
             mean_val = nanmean (map snd data)
         in [Zone_line zone, Average_productivity mean_val] @
            (if \<not> isnan peak_val
             then [Peak_productivity peak_val peak_date,
                   (if flt peak_val 1.0 then Status_low_productivity
                    else if fgt peak_val 5.0 then Status_very_high
                    else Status_healthy_normal)]
             else [Status_no_data])))"

text \<open>
  The whole of processing.py. \<open>resample\<close> stands for
  \<^verbatim>\<open>ds['chlor_a'].resample(time='1W').mean(skipna=True)\<close>, which raises when the
  variable is absent. A series without any time step makes \<^verbatim>\<open>data.max()\<close> raise.
\<close>

definition processing_main :: "((date \<times> 'g) list \<Rightarrow> error + grid) \<Rightarrow> ('g list \<Rightarrow> error option)
    \<Rightarrow> 'g filesystem \<Rightarrow> message list \<times> unit outcome" where
  "processing_main resample concat_check fs =
     (case load_and_merge concat_check fs of
        (out, Exit c) \<Rightarrow> (out, Exit c)
      | (out, Uncaught e) \<Rightarrow> (out, Uncaught e)
      | (out, Done ds) \<Rightarrow>
          (let out = out @ [Aggregating_weekly]
           in case resample ds of
                Inl e \<Rightarrow> (out, Uncaught e)
              | Inr ds_weekly \<Rightarrow>
                  (let out = out @ [Extracting_zones]
                   in case extract_zones ds_weekly zones of
                        Inl e \<Rightarrow> (out, Uncaught e)
                      | Inr results \<Rightarrow>
                          if time ds_weekly = []
                          then (out @ [Analysis_report], Uncaught ValueError)
                          else (out @ [Analysis_report] @ concat (map report_zone results) @
                                [Processing_complete], Done ()))))"

subsection \<open>output.py: the prediction model\<close>

record prediction =
  Zone :: string
  Observed_Chl :: cell
  PPI_Anomaly :: cell
  Yield_Forecast :: cell

text \<open>
  \<^verbatim>\<open>ts.sel(time=slice('2025-10-01', '2025-11-30'))\<close>: both days belong to the window.
  The bounds are date strings, and the right one stands for the end of its day, which is
  no entry of the axis: on a time axis that is not in ascending order pandas refuses such
  bounds with a \<^verbatim>\<open>KeyError\<close>.
\<close>

definition sel_time :: "(date \<times> cell) list \<Rightarrow> date \<times> date \<Rightarrow> error + (date \<times> cell) list" where
  "sel_time ts sl =
     (if sorted (map fst ts)
      then (case slice_indexer (map fst ts) (fst sl) (snd sl) of
              Inl e \<Rightarrow> Inl e
            | Inr r \<Rightarrow> Inr (isel r ts))
      else Inl KeyError)"

definition bloom_window :: "date \<times> date" where
  "bloom_window = ((2025, 10, 1), (2025, 11, 30))"

definition predict_zone :: "string \<Rightarrow> (date \<times> cell) list \<Rightarrow> error + prediction" where
  "predict_zone zone_name ts =
     (case sel_time ts bloom_window of
        Inl e \<Rightarrow> Inl e
      | Inr bloom_period \<Rightarrow>
          (let avg_observed_chl =
                 (if length bloom_period > 0 then nanmean (map snd bloom_period) else Val 0.0);
               ppi_anomaly = fdiv (fsub avg_observed_chl BASELINE_CHL) BASELINE_CHL;
               yield_gap_percent = yield_gap ppi_anomaly
           in Inr \<lparr>Zone = zone_name, Observed_Chl = avg_observed_chl,
                   PPI_Anomaly = fmul ppi_anomaly (Val 100),
                   Yield_Forecast = yield_gap_percent\<rparr>))"

definition report_row :: "prediction \<Rightarrow> message" where
  "report_row row =
     (let obs = Observed_Chl row; ppi = PPI_Anomaly row; forecast = Yield_Forecast row
      in Report_row (Zone row) obs ppi (ppi_status ppi) (forecast_string forecast))"

fun predict_zones :: "(string \<times> (date \<times> cell) list) list \<Rightarrow> error + prediction list" where
  "predict_zones [] = Inr []"
| "predict_zones ((zone_name, ts) # zs) =
     (case predict_zone zone_name ts of
        Inl e \<Rightarrow> Inl e
      | Inr row \<Rightarrow>
          (case predict_zones zs of
             Inl e \<Rightarrow> Inl e
           | Inr prediction_report \<Rightarrow> Inr (row # prediction_report)))"

text \<open>
  The whole of output.py. In the script the selection and the forecast of a zone are
  computed in one loop; the zones do not influence each other, so the model runs the
  selections first. The plot reads \<^verbatim>\<open>ds_weekly.time[0]\<close>, which raises on an empty
  time axis.
\<close>

definition output_main :: "((date \<times> 'g) list \<Rightarrow> error + grid) \<Rightarrow> ('g list \<Rightarrow> error option)
    \<Rightarrow> 'g filesystem \<Rightarrow> message list \<times> unit outcome" where
  "output_main resample concat_check fs =
     (case load_data concat_check fs of
        (out, Exit c) \<Rightarrow> (out, Exit c)
      | (out, Uncaught e) \<Rightarrow> (out, Uncaught e)
      | (out, Done ds) \<Rightarrow>
          (case resample ds of
             Inl e \<Rightarrow> (out, Uncaught e)
           | Inr ds_weekly \<Rightarrow>
               (let out = out @ [Running_simulation]
                in case extract_zones ds_weekly zones of
                     Inl e \<Rightarrow> (out, Uncaught e)
                   | Inr series \<Rightarrow>
                       (case predict_zones series of
                          Inl e \<Rightarrow> (out, Uncaught e)
                        | Inr prediction_report \<Rightarrow>
                            if time ds_weekly = [] then (out, Uncaught IndexError)
                            else (out @ [Governance_report] @ map report_row prediction_report @
                                  [Interpretation], Done ())))))"

section \<open>Biogeochemical arrays (dec27\_code.py, bio\_3d.py)\<close>

text \<open>
  A variable of the model files: its time, depth, latitude and longitude axes, and the
  cell at each position (time, depth, latitude, longitude). The variables of the three
  files all have these four dimensions.
\<close>

record array4 =
  times :: "date list"
  depth :: "real list"
  latitude :: "real list"
  longitude :: "real list"
  data :: "nat \<Rightarrow> nat \<Rightarrow> nat \<Rightarrow> nat \<Rightarrow> cell"

text \<open>A dataset: its data variables by name, in the order of the file.\<close>

type_synonym dataset = "(string \<times> array4) list"

record bgc_folder =
  path_exists :: "string \<Rightarrow> bool"
  open_dataset :: "string \<Rightarrow> error + dataset"

definition data_folder_bgc :: string where
  "data_folder_bgc = ''biogeochem_data''"

definition lat_slice :: "real \<times> real" where
  "lat_slice = (16.5, 17.5)"

definition lon_slice :: "real \<times> real" where
  "lon_slice = (72.0, 73.5)"

definition file_prod :: string where
  "file_prod = ''konkan_bgc_nppv_o2.nc''"


definition file_bio :: string where
  "file_bio = ''konkan_bgc_chl_phyc.nc''"

datatype bgc_message =
    Missing_file string
  | Using_variable string string
  | Variable_not_found string string "string list"
  | Zone_only_NaN string
  | Try_adjusting_bounds
  | Current_bounds "real \<times> real" "real \<times> real"
  | Loaded_successfully string nat
  | Error_processing string error
  | NPP_all_zeros
  | Using_chlorophyll_proxy
  | Integrated_NPP_calculated cell cell cell
  | Integration_failed error
  | Extracted_nitrate real real
  | Nitrate_extraction_failed error
  | Extracted_oxygen real cell cell
  | Oxygen_extraction_failed error
  | Critical_no_data
  | Plot_saved
  | Production_status bloom_status
  | Production_not_analysed error
  | Production_no_data
  | Diagnosis_efficient_utilization
  | Diagnosis_very_strong_upwelling
  | Diagnosis_nutrient_limitation
  | Nutrients_not_analysed error
  | Upwelling_no_data
  | Oxygen_assessment cell oxygen_status
  | Oxygen_no_data

subsection \<open>dec27\_code.py: extract\_and\_process\<close>

text \<open>\<^verbatim>\<open>str.lower\<close> on ASCII letters, and the substring test \<^verbatim>\<open>a in b\<close>.\<close>

definition lower :: "string \<Rightarrow> string" where
  "lower s =
     map (\<lambda>c. if CHR ''A'' \<le> c \<and> c \<le> CHR ''Z'' then char_of (of_char c + (32::nat)) else c) s"

fun contains :: "string \<Rightarrow> string \<Rightarrow> bool" where
  "contains a [] = (a = [])"
| "contains a (c # cs) = (take (length a) (c # cs) = a \<or> contains a cs)"

text \<open>
  The variable to use: the one of the requested name, or else the first variable whose
  lower-cased name contains the lower-cased request, with a note of the substitution.
\<close>

definition find_variable :: "string \<Rightarrow> dataset \<Rightarrow> (array4 \<times> bgc_message list) option" where
  "find_variable var_name ds =
     (case map_of ds var_name of
        Some a \<Rightarrow> Some (a, [])
      | None \<Rightarrow>
          (case filter (\<lambda>v. contains (lower var_name) (lower (fst v))) ds of
             [] \<Rightarrow> None
           | v # vs \<Rightarrow> Some (snd v, [Using_variable (fst v) var_name])))"

text \<open>\<^verbatim>\<open>ds[target_var].sel(latitude=lat_slice, longitude=lon_slice)\<close>\<close>

definition sel_latitude_longitude :: "array4 \<Rightarrow> real \<times> real \<Rightarrow> real \<times> real \<Rightarrow> error + array4" where
  "sel_latitude_longitude a la lo =
     (case slice_indexer (latitude a) (fst la) (snd la) of
        Inl e \<Rightarrow> Inl e
      | Inr (i0, i1) \<Rightarrow>
          (case slice_indexer (longitude a) (fst lo) (snd lo) of
             Inl e \<Rightarrow> Inl e
           | Inr (j0, j1) \<Rightarrow>
               Inr (a\<lparr>latitude := isel (i0, i1) (latitude a),
                      longitude := isel (j0, j1) (longitude a),
                      data := (\<lambda>t k i j. data a t k (i0 + i) (j0 + j))\<rparr>)))"

text \<open>The cells of one time step, over all depths and grid points.\<close>

definition cells_of_step :: "array4 \<Rightarrow> nat \<Rightarrow> cell list" where
  "cells_of_step a t =
     concat (map (\<lambda>k. concat (map (\<lambda>i. map (\<lambda>j. data a t k i j) [0..<length (longitude a)])
                                 [0..<length (latitude a)]))
                 [0..<length (depth a)])"

text \<open>\<^verbatim>\<open>int((~sample.isnull()).sum())\<close>\<close>

definition valid_count :: "cell list \<Rightarrow> nat" where
  "valid_count sample = length (valid sample)"

text \<open>
  \<open>extract_and_process\<close>: the lines printed, and the subset with its dataset, or
  \<open>None\<close> for the pair \<^verbatim>\<open>(None, None)\<close>. Every exception inside is caught and reported;
  \<^verbatim>\<open>subset.isel(time=0)\<close> raises \<^verbatim>\<open>IndexError\<close> on an empty time axis.
\<close>

definition extract_and_process :: "bgc_folder \<Rightarrow> string \<Rightarrow> string \<Rightarrow> string
    \<Rightarrow> bgc_message list \<times> (array4 \<times> dataset) option" where
  "extract_and_process env fname var_name label =
     (let path = path_join data_folder_bgc fname
      in if \<not> path_exists env path then ([Missing_file fname], None)
         else
           (case open_dataset env path of
              Inl e \<Rightarrow> ([Error_processing fname e], None)
            | Inr ds \<Rightarrow>
                (case find_variable var_name ds of
                   None \<Rightarrow> ([Variable_not_found var_name fname (map fst ds)], None)
                 | Some (target, notes) \<Rightarrow>
                     (case sel_latitude_longitude target lat_slice lon_slice of
                        Inl e \<Rightarrow> (notes @ [Error_processing fname e], None)
                      | Inr subset' \<Rightarrow>
                          if times subset' = []
                          then (notes @ [Error_processing fname IndexError], None)
                          else
                            (let sample = cells_of_step subset' 0
                             in if valid_count sample = 0
                                then (notes @ [Zone_only_NaN label, Try_adjusting_bounds,
                                               Current_bounds lat_slice lon_slice], None)
                                else (notes @ [Loaded_successfully label (valid_count sample)],
                                      Some (subset', ds)))))))"

subsection \<open>dec27\_code.py: productivity, nutrients, oxygen\<close>

text \<open>\<^verbatim>\<open>.sel(depth=slice(0, 100))\<close>\<close>

definition sel_depth :: "array4 \<Rightarrow> real \<times> real \<Rightarrow> error + array4" where
  "sel_depth a sl =
     (case slice_indexer (depth a) (fst sl) (snd sl) of
        Inl e \<Rightarrow> Inl e
      | Inr (k0, k1) \<Rightarrow>
          Inr (a\<lparr>depth := isel (k0, k1) (depth a),
                 data := (\<lambda>t k i j. data a t (k0 + k) i j)\<rparr>))"

text \<open>
  \<^verbatim>\<open>.integrate(coord='depth')\<close>: the trapezoidal rule over the sampled depth levels,
  \<open>(x\<^sub>1 - x\<^sub>0) * 0.5 * (y\<^sub>1 + y\<^sub>0)\<close> summed over the consecutive pairs; a missing value
  in the column makes the integral missing.
\<close>

fun trapz :: "real list \<Rightarrow> cell list \<Rightarrow> cell" where
  "trapz (x0 # x1 # xs) (y0 # y1 # ys) =
     fadd (fmul (Val ((x1 - x0) * 0.5)) (fadd y1 y0)) (trapz (x1 # xs) (y1 # ys))"
| "trapz xs ys = Val 0"

text \<open>The column of values over depth at a time step and grid point.\<close>

definition column :: "array4 \<Rightarrow> nat \<Rightarrow> nat \<Rightarrow> nat \<Rightarrow> cell list" where
  "column a t i j = map (\<lambda>k. data a t k i j) [0..<length (depth a)]"

definition integrate_depth :: "array4 \<Rightarrow> nat \<Rightarrow> nat \<Rightarrow> nat \<Rightarrow> cell" where
  "integrate_depth a t i j = trapz (depth a) (column a t i j)"

text \<open>
  A quantity per time step and grid point, averaged over the grid points skipping
  missing values: \<^verbatim>\<open>.mean(dim=['latitude', 'longitude'], skipna=True)\<close>.
\<close>

definition horizontal_mean :: "array4 \<Rightarrow> (nat \<Rightarrow> nat \<Rightarrow> nat \<Rightarrow> cell) \<Rightarrow> (date \<times> cell) list" where
  "horizontal_mean a q =
     map (\<lambda>t. (times a ! t,
                nanmean (concat (map (\<lambda>i. map (\<lambda>j. q t i j) [0..<length (longitude a)])
                                     [0..<length (latitude a)]))))
         [0..<length (times a)]"

definition all_cells :: "array4 \<Rightarrow> cell list" where
  "all_cells a = concat (map (cells_of_step a) [0..<length (times a)])"

text \<open>
  Step 1. A productivity array whose overall mean is zero or missing is replaced by
  chlorophyll when that can be extracted. Any exception in the step is caught and leaves
  \<open>integrated_npp\<close> at \<open>None\<close>; the minimum of a series without time steps raises.
\<close>

definition process_npp :: "bgc_folder \<Rightarrow> bgc_message list \<times> (date \<times> cell) list option" where
  "process_npp env =
     (case extract_and_process env file_prod ''nppv'' ''NPP'' of
        (out, None) \<Rightarrow> (out, None)
      | (out, Some (npp_subset, ds_prod)) \<Rightarrow>
          (case sel_depth npp_subset (0, 100) of
             Inl e \<Rightarrow> (out @ [Integration_failed e], None)
           | Inr npp_100m \<Rightarrow>
               (case (if nanmean (all_cells npp_100m) = Val 0 \<or> isnan (nanmean (all_cells npp_100m))
                      then (case extract_and_process env file_bio ''chl'' ''Chlorophyll'' of
                              (out2, None) \<Rightarrow> (out @ [NPP_all_zeros] @ out2, Inr npp_100m)
                            | (out2, Some (chl_subset, ds_bio)) \<Rightarrow>
                                (out @ [NPP_all_zeros] @ out2 @ [Using_chlorophyll_proxy],
                                 sel_depth chl_subset (0, 100)))
                      else (out, Inr npp_100m)) of
                  (out, Inl e) \<Rightarrow> (out @ [Integration_failed e], None)
                | (out, Inr npp_100m) \<Rightarrow>
                    (let integrated_npp = horizontal_mean npp_100m (integrate_depth npp_100m)
                     in if integrated_npp = [] then (out @ [Integration_failed ValueError], None)
                        else (out @ [Integrated_NPP_calculated
                                       (nanmean (map snd integrated_npp))
                                       (nanmin (map snd integrated_npp))
                                       (nanmax (map snd integrated_npp))],
                              Some integrated_npp)))))"




subsection \<open>dec27\_code.py: the quantitative report\<close>







subsection \<open>bio\_3d.py: integrated production\<close>

text \<open>
  \<^verbatim>\<open>ratnagiri['nppv'].sel(depth=slice(0, 100)).sum(dim='depth').mean(dim=[...])\<close>:
  a plain sum over the selected depth levels (the script calls it a simple sum proxy),
  then the mean over the grid points, both skipping missing values.
\<close>

definition sum_depth :: "array4 \<Rightarrow> nat \<Rightarrow> nat \<Rightarrow> nat \<Rightarrow> cell" where
  "sum_depth a t i j = nansum (column a t i j)"

definition npp_integrated :: "array4 \<Rightarrow> error + (date \<times> cell) list" where
  "npp_integrated nppv =
     (case sel_depth nppv (0, 100) of
        Inl e \<Rightarrow> Inl e
      | Inr a \<Rightarrow> Inr (horizontal_mean a (sum_depth a)))"

section \<open>Example inputs\<close>

text \<open>
  A folder with two daily files of the same day, from two sensors; both open.
\<close>

definition same_day_folder :: "unit filesystem" where
  "same_day_folder =
     \<lparr>isdir = (\<lambda>p. False),
      glob = (\<lambda>p. if p = ''Data/*.nc''
                   then [\<lparr>path = ''Data/TERRA_MODIS.20250919.L3m.DAY.CHL.nc'', isfile = True,
                           opened = Inr ()\<rparr>,
                         \<lparr>path = ''Data/AQUA_MODIS.20250919.L3m.DAY.CHL.nc'', isfile = True,
                           opened = Inr ()\<rparr>]
                   else [])\<rparr>"


text \<open>A folder in which the pattern matches nothing; the library stand-ins of a run.\<close>

definition empty_folder :: "unit filesystem" where
  "empty_folder = \<lparr>isdir = (\<lambda>p. False), glob = (\<lambda>p. [])\<rparr>"

definition concat_ok :: "unit list \<Rightarrow> error option" where
  "concat_ok gs = None"

definition no_chlor_a :: "(date \<times> unit) list \<Rightarrow> error + grid" where
  "no_chlor_a ds = Inl KeyError"



text \<open>
  A production array that equals 1 everywhere, sampled at the depths 0, 50 and 100 over
  one grid point and one day.
\<close>

definition uniform_column :: array4 where
  "uniform_column =
     \<lparr>times = [(2025, 10, 5)], depth = [0, 50, 100], latitude = [17], longitude = [73],
      data = (\<lambda>t k i j. Val 1)\<rparr>"





text \<open>A folder whose production file holds the uniform production array.\<close>

definition uniform_folder :: bgc_folder where
  "uniform_folder =
     \<lparr>path_exists = (\<lambda>p. p = ''biogeochem_data/konkan_bgc_nppv_o2.nc''),
      open_dataset = (\<lambda>p. Inr [(''nppv'', uniform_column)])\<rparr>"

text \<open>A folder that holds one file, whose name carries no date.\<close>

definition readme_folder :: "unit filesystem" where
  "readme_folder =
     \<lparr>isdir = (\<lambda>p. False),
      glob = (\<lambda>p. [\<lparr>path = ''Data/readme.nc'', isfile = True, opened = Inr ()\<rparr>])\<rparr>"

text \<open>A folder that holds one daily file, whatever the pattern.\<close>

definition one_day_folder :: "unit filesystem" where
  "one_day_folder =
     \<lparr>isdir = (\<lambda>p. False),
      glob = (\<lambda>p. [\<lparr>path = ''Data/AQUA_MODIS.20250919.L3m.DAY.CHL.nc'', isfile = True,
                      opened = Inr ()\<rparr>])\<rparr>"


text \<open>
  A column sampled at the depths 0 and 100 only, with the value 1 at the surface and 3
  at depth, over one grid point and one day.
\<close>

definition ramp_column :: array4 where
  "ramp_column =
     \<lparr>times = [(2025, 10, 5)], depth = [0, 100], latitude = [17], longitude = [73],
      data = (\<lambda>t k i j. if k = 0 then Val 1 else Val 3)\<rparr>"

text \<open>The same column with its value at depth missing.\<close>

definition broken_column :: array4 where
  "broken_column =
     \<lparr>times = [(2025, 10, 5)], depth = [0, 100], latitude = [17], longitude = [73],
      data = (\<lambda>t k i j. if k = 0 then Val 1 else NaN)\<rparr>"

text \<open>
  A production array that is zero everywhere, on the axes of the uniform array; a folder
  whose production file holds it and whose biology file holds the uniform array as
  chlorophyll; and a folder with the same production file and no biology file.
\<close>

definition zero_column :: array4 where
  "zero_column =
     \<lparr>times = [(2025, 10, 5)], depth = [0, 50, 100], latitude = [17], longitude = [73],
      data = (\<lambda>t k i j. Val 0)\<rparr>"

definition proxy_folder :: bgc_folder where
  "proxy_folder =
     \<lparr>path_exists = (\<lambda>p. True),
      open_dataset = (\<lambda>p. if p = ''biogeochem_data/konkan_bgc_nppv_o2.nc''
                            then Inr [(''nppv'', zero_column)]
                            else Inr [(''chl'', uniform_column)])\<rparr>"

definition zero_folder :: bgc_folder where
  "zero_folder =
     \<lparr>path_exists = (\<lambda>p. p = ''biogeochem_data/konkan_bgc_nppv_o2.nc''),
      open_dataset = (\<lambda>p. Inr [(''nppv'', zero_column)])\<rparr>"

section \<open>Properties\<close>

lemma ppi_status_Val:
  "ppi_status (Val a) = (if a < - 50 then CRITICAL else if a < - 20 then STRESSED else STABLE)"
  by (simp add: ppi_status_def)

lemma nanmin_Min:
  assumes "valid s \<noteq> []"
  shows "nanmin s = Val (Min (set (valid s)))"
proof -
  from assms obtain a as where v: "valid s = a # as"
    by (cases "valid s") auto
  have "fold min as a = Min (set (a # as))"
    by (simp only: Min.set_eq_fold)
  with v show ?thesis
    by (simp add: nanmin_def)
qed

text \<open>
  Claim C5. The eco-health status of output.py is CRITICAL for every PPI anomaly below
  \<open>-50\<close> (never STRESSED), STRESSED from \<open>-50\<close> up to but excluding \<open>-20\<close>, and STABLE
  otherwise. In dec27\_code.py a bloom anomaly of \<open>+25\<close> percent is classified STRONG
  BLOOM and one of \<open>-60\<close> percent BLOOM FAILURE; the same \<open>-60\<close> is CRITICAL in
  output.py.
\<close>

theorem classification_bands:
  "(a < - 50 \<longrightarrow> ppi_status (Val a) = CRITICAL) \<and>
   (- 50 \<le> a \<and> a < - 20 \<longrightarrow> ppi_status (Val a) = STRESSED) \<and>
   (- 20 \<le> a \<longrightarrow> ppi_status (Val a) = STABLE) \<and>
   bloom_class (Val 25) = STRONG_BLOOM \<and>
   bloom_class (Val (- 60)) = BLOOM_FAILURE \<and>
   ppi_status (Val (- 60)) = CRITICAL"
  by (simp add: ppi_status_Val bloom_class_def)

theorem classification_bands_witness:
  "ppi_status (Val (- 75)) = CRITICAL \<and> ppi_status (Val (- 50)) = STRESSED \<and>
   ppi_status (Val (- 20)) = STABLE"
  using classification_bands [of "- 75"] classification_bands [of "- 50"]
    classification_bands [of "- 20"]
  by simp

text \<open>
  Claim C9. For every PPI anomaly fraction \<open>a\<close> the yield-gap forecast of output.py is
  \<open>a * 0.8 * 100\<close> when that product is not positive, and \<open>a * 0.8 * 100 * 0.2\<close> when
  it is positive.
\<close>

theorem yield_gap_forecast:
  "(a * 0.8 * 100 \<le> 0 \<longrightarrow> yield_gap (Val a) = Val (a * 0.8 * 100)) \<and>
   (a * 0.8 * 100 > 0 \<longrightarrow> yield_gap (Val a) = Val (a * 0.8 * 100 * 0.2))"
  by (simp add: yield_gap_def TROPHIC_SENSITIVITY_def)

theorem yield_gap_forecast_witness:
  "yield_gap (Val (- 1)) = Val (- 80) \<and> yield_gap (Val (1 / 4)) = Val 4"
  using yield_gap_forecast [of "- 1"] yield_gap_forecast [of "1 / 4"]
  by simp

text \<open>
  Claim C6, as stated, at bio\_3d.py: a deep-oxygen minimum of 80 is reported as safe
  oxygen levels; that script has no caution band.
\<close>

theorem oxygen_bands_counterexample:
  "oxygen_safety_class (nanmin [Val 200, Val 80, Val 150]) = OXYGEN_SAFE"
  by (simp add: oxygen_safety_class_def nanmin_def)

text \<open>
  Claim C6, amended. In dec27\_code.py the minimum \<open>m\<close> of the deep-oxygen series over
  the whole period is classified ALERT (hypoxic) when \<open>m < 60\<close>, CAUTION (oxygen
  stress) when \<open>60 \<le> m < 120\<close>, and healthy when \<open>m \<ge> 120\<close>; so 45 is hypoxic, 80
  is caution and 200 is healthy. In bio\_3d.py the minimum is checked against the
  hypoxia threshold only: a warning when \<open>m < 60\<close>, safe otherwise.
\<close>

theorem oxygen_bands:
  assumes "valid deep_o2 \<noteq> []" and "m = Min (set (valid deep_o2))"
  shows "(m < 60 \<longrightarrow> oxygen_class (nanmin deep_o2) = ALERT_HYPOXIC) \<and>
         (60 \<le> m \<and> m < 120 \<longrightarrow> oxygen_class (nanmin deep_o2) = CAUTION_STRESS) \<and>
         (120 \<le> m \<longrightarrow> oxygen_class (nanmin deep_o2) = HEALTHY) \<and>
         (m < 60 \<longrightarrow> oxygen_safety_class (nanmin deep_o2) = WARNING_HYPOXIC) \<and>
         (60 \<le> m \<longrightarrow> oxygen_safety_class (nanmin deep_o2) = OXYGEN_SAFE) \<and>
         oxygen_class (Val 45) = ALERT_HYPOXIC \<and>
         oxygen_class (Val 80) = CAUTION_STRESS \<and>
         oxygen_class (Val 200) = HEALTHY"
proof -
  have "nanmin deep_o2 = Val m"
    using nanmin_Min [OF assms(1)] assms(2) by (simp only:)
  then show ?thesis
    by (simp add: oxygen_class_def oxygen_safety_class_def)
qed

theorem oxygen_bands_witness:
  "oxygen_class (nanmin [Val 90, Val 45, NaN]) = ALERT_HYPOXIC \<and>
   oxygen_class (nanmin [Val 80, Val 130]) = CAUTION_STRESS \<and>
   oxygen_class (nanmin [NaN, Val 200]) = HEALTHY \<and>
   oxygen_safety_class (nanmin [Val 90, Val 45, NaN]) = WARNING_HYPOXIC \<and>
   oxygen_safety_class (nanmin [Val 80, Val 130]) = OXYGEN_SAFE"
  using oxygen_bands [of "[Val 90, Val 45, NaN]" 45] oxygen_bands [of "[Val 80, Val 130]" 80]
    oxygen_bands [of "[NaN, Val 200]" 200]
  by simp

subsection \<open>Date recovery from filenames\<close>

lemma is_digit_2025: "list_all is_digit ''2025''"
  by (simp add: is_digit_def)

lemma int_of_digits_2025: "int_of_digits ''2025'' = 2025"
  by (simp add: int_of_digits_def digit_val_def)

lemma match_ymd_Some:
  assumes "match_ymd name = Some s"
  shows "length s = 8 \<and> take 4 s = ''2025'' \<and> list_all is_digit s \<and>
         (\<exists>pre post. name = pre @ s @ post)"
  using assms
proof (induction name)
  case Nil
  then show ?case by simp
next
  case (Cons c cs)
  show ?case
  proof (cases "ymd_here (c # cs)")
    case True
    with Cons.prems have s: "s = take 8 (c # cs)" by simp
    from True have h: "take 4 (c # cs) = ''2025''" "8 \<le> length (c # cs)"
      "list_all is_digit (take 4 (drop 4 (c # cs)))"
      by (simp_all add: ymd_here_def)
    have split: "take 8 (c # cs) = take 4 (c # cs) @ take 4 (drop 4 (c # cs))"
      by (metis take_add numeral_Bit0 numeral_code(2) semiring_norm(2) add.commute)
    have "list_all is_digit (take 8 (c # cs))"
      unfolding split using h is_digit_2025 by simp
    moreover have "length (take 8 (c # cs)) = 8" using h by simp
    moreover have "take 4 (take 8 (c # cs)) = ''2025''" using h by (simp add: min_def)
    moreover have "c # cs = [] @ take 8 (c # cs) @ drop 8 (c # cs)" by simp
    ultimately show ?thesis unfolding s by blast
  next
    case False
    with Cons.prems have "match_ymd cs = Some s" by simp
    from Cons.IH [OF this] obtain pre post where
      "length s = 8" "take 4 s = ''2025''" "list_all is_digit s" "cs = pre @ s @ post"
      by blast
    then have "c # cs = (c # pre) @ s @ post" by simp
    with \<open>length s = 8\<close> \<open>take 4 s = ''2025''\<close> \<open>list_all is_digit s\<close> show ?thesis by blast
  qed
qed

lemma timestamp_of_ymd:
  assumes "match_ymd name = Some s"
  shows "timestamp_of name =
    (if valid_date (ymd_fields s) then Inr (Some (ymd_fields s)) else Inl ValueError)"
  using match_ymd_Some [OF assms] assms
  by (simp add: timestamp_of_def to_datetime_Ymd_def)

lemma ymd_fields_year:
  assumes "match_ymd name = Some s"
  shows "fst (ymd_fields s) = 2025"
  using match_ymd_Some [OF assms] by (simp add: ymd_fields_def int_of_digits_2025)

lemma match_julian_Some:
  assumes "match_julian name = Some (g1, g2)"
  shows "g1 = ''2025'' \<and> length g2 = 3 \<and> list_all is_digit g2 \<and>
         (\<exists>pre post. name = pre @ g1 @ g2 @ post)"
  using assms
proof (induction name)
  case Nil
  then show ?case by simp
next
  case (Cons c cs)
  show ?case
  proof (cases "julian_here (c # cs)")
    case True
    with Cons.prems have g: "g1 = take 4 (c # cs)" "g2 = take 3 (drop 4 (c # cs))" by simp_all
    from True have h: "take 4 (c # cs) = ''2025''" "7 \<le> length (c # cs)"
      "list_all is_digit (take 3 (drop 4 (c # cs)))"
      by (simp_all add: julian_here_def)
    have "c # cs = [] @ take 4 (c # cs) @ take 3 (drop 4 (c # cs)) @ drop 3 (drop 4 (c # cs))"
      by (simp only: append_take_drop_id append_Nil)
    moreover have "length (take 3 (drop 4 (c # cs))) = 3" using h by simp
    ultimately show ?thesis unfolding g using h by blast
  next
    case False
    with Cons.prems have "match_julian cs = Some (g1, g2)" by simp
    from Cons.IH [OF this] obtain pre post where
      "g1 = ''2025''" "length g2 = 3" "list_all is_digit g2" "cs = pre @ g1 @ g2 @ post"
      by blast
    then have "c # cs = (c # pre) @ g1 @ g2 @ post" by simp
    with \<open>g1 = ''2025''\<close> \<open>length g2 = 3\<close> \<open>list_all is_digit g2\<close> show ?thesis by blast
  qed
qed

lemma digit_val_le:
  assumes "is_digit c"
  shows "digit_val c \<le> 9"
proof -
  from assms have "(of_char c :: nat) \<le> of_char CHR ''9''"
    by (simp only: is_digit_def less_eq_char_def)
  then have "(of_char c :: nat) \<le> 57" by simp
  then show ?thesis by (simp add: digit_val_def)
qed

lemma int_of_digits_3:
  assumes "length g = 3" and "list_all is_digit g"
  shows "int_of_digits g < 1000"
proof -
  from assms(1) obtain a b c where g: "g = [a, b, c]"
    by (cases g; cases "tl g"; cases "tl (tl g)") auto
  with assms(2) have "digit_val a \<le> 9" "digit_val b \<le> 9" "digit_val c \<le> 9"
    by (simp_all add: digit_val_le)
  then show ?thesis unfolding g by (simp add: int_of_digits_def)
qed

lemma sum_days_split:
  assumes "m < 13"
  shows "sum_list (map (days_in_month y) [m..<13]) =
         days_in_month y m + sum_list (map (days_in_month y) [Suc m..<13])"
  using assms by (simp add: upt_conv_Cons)

lemma from_julian_correct:
  assumes "1 \<le> m" and "m \<le> 12" and "1 \<le> j"
    and "j \<le> sum_list (map (days_in_month y) [m..<13])"
  shows "\<exists>m' d. from_julian y m j = (y, m', d) \<and> valid_date (y, m', d) \<and>
           sum_list (map (days_in_month y) [1..<m']) + d =
           sum_list (map (days_in_month y) [1..<m]) + j"
  using assms
proof (induction y m j rule: from_julian.induct)
  case (1 y m j)
  show ?case
  proof (cases "j \<le> days_in_month y m")
    case True
    then have "from_julian y m j = (y, m, j)"
      by (simp add: from_julian.simps)
    moreover have "valid_date (y, m, j)"
      using True "1.prems" by (simp add: valid_date_def)
    ultimately show ?thesis by blast
  next
    case False
    have m13: "m < 13" using "1.prems" by simp
    have m12: "\<not> 12 \<le> m"
    proof
      assume "12 \<le> m"
      with "1.prems" have "m = 12" by simp
      with "1.prems"(4) have "j \<le> days_in_month y 12"
        by (simp add: upt_conv_Cons)
      with False \<open>m = 12\<close> show False by simp
    qed
    from False m12 have unfold: "from_julian y m j = from_julian y (m + 1) (j - days_in_month y m)"
      by (subst from_julian.simps) simp
    have p1: "1 \<le> m + 1" by simp
    have p2: "m + 1 \<le> 12" using m12 by simp
    have p3: "1 \<le> j - days_in_month y m" using False by simp
    have p4: "j - days_in_month y m \<le> sum_list (map (days_in_month y) [m + 1..<13])"
      using "1.prems"(4) sum_days_split [OF m13, of y] by simp
    from "1.IH"(2) [OF False m12 p1 p2 p3 p4] obtain m' d where
      r: "from_julian y (m + 1) (j - days_in_month y m) = (y, m', d)"
         "valid_date (y, m', d)"
         "sum_list (map (days_in_month y) [1..<m']) + d =
          sum_list (map (days_in_month y) [1..<m + 1]) + (j - days_in_month y m)"
      by blast
    have "sum_list (map (days_in_month y) [1..<m + 1]) =
          sum_list (map (days_in_month y) [1..<m]) + days_in_month y m"
      using "1.prems"(1) by simp
    with r(3) False have "sum_list (map (days_in_month y) [1..<m']) + d =
          sum_list (map (days_in_month y) [1..<m]) + j"
      by simp
    with r(1,2) unfold show ?thesis by simp
  qed
qed

lemma days_2025: "sum_list (map (days_in_month 2025) [1..<13]) = 365"
  by code_simp

lemma from_julian_2025:
  assumes "1 \<le> j" and "j \<le> 365"
  shows "\<exists>t. from_julian 2025 1 j = t \<and> valid_date t \<and> fst t = 2025 \<and> yearday t = j"
proof -
  have "j \<le> sum_list (map (days_in_month 2025) [1..<13])"
    using assms(2) by (simp only: days_2025)
  from from_julian_correct [of 1 j 2025, OF _ _ assms(1) this]
  obtain m' d where r: "from_julian 2025 1 j = (2025, m', d)" "valid_date (2025, m', d)"
      "sum_list (map (days_in_month 2025) [1..<m']) + d =
       sum_list (map (days_in_month 2025) [1..<1]) + j"
    by auto
  then have "yearday (2025, m', d) = j"
    by (simp add: yearday_def)
  with r show ?thesis by simp
qed

lemma timestamp_of_julian:
  assumes "match_ymd name = None" and "match_julian name = Some (g1, g2)"
    and "1 \<le> int_of_digits g2" and "int_of_digits g2 \<le> 365"
  shows "timestamp_of name = Inr (Some (from_julian 2025 1 (int_of_digits g2)))"
proof -
  from match_julian_Some [OF assms(2)] have g: "g1 = ''2025''" "length g2 = 3" "list_all is_digit g2"
    by simp_all
  have lt: "int_of_digits g2 < 1000" using g by (simp add: int_of_digits_3)
  have d: "(2025 * 1000 + int_of_digits g2) div 1000 = 2025"
    using lt by simp
  have "(2025 * 1000 + int_of_digits g2) mod 1000 = int_of_digits g2 mod 1000"
    by (rule mod_mult_self3)
  then have m: "(2025 * 1000 + int_of_digits g2) mod 1000 = int_of_digits g2"
    using lt by (simp only: mod_less)
  have "to_datetime_Yj (2025 * 1000 + int_of_digits g2) = Inr (from_julian 2025 1 (int_of_digits g2))"
    unfolding to_datetime_Yj_def Let_def d m using assms(3,4) by simp
  then show ?thesis
    using assms(1,2) g(1) by (simp add: timestamp_of_def int_of_digits_2025)
qed

lemma timestamp_of_neither:
  assumes "match_ymd name = None" and "match_julian name = None"
  shows "timestamp_of name = Inr None"
  using assms by (simp add: timestamp_of_def)

lemma fold_load_step:
  "fst (fold load_step fs (ds, out)) = ds @ concat (map loaded fs)"
proof (induction fs arbitrary: ds out)
  case Nil
  then show ?case by simp
next
  case (Cons f fs)
  obtain ds' out' where st: "load_step f (ds, out) = (ds', out')"
    by (cases "load_step f (ds, out)")
  then have "ds' = ds @ loaded f"
    by (auto simp: load_step_def loaded_def Let_def split: sum.splits option.splits)
  with Cons.IH [of ds' out'] st show ?case by simp
qed

lemma fold_load_step_quiet:
  "fold load_step_quiet fs ds = ds @ concat (map loaded fs)"
proof (induction fs arbitrary: ds)
  case Nil
  then show ?case by simp
next
  case (Cons f fs)
  have "load_step_quiet f ds = ds @ loaded f"
    by (auto simp: load_step_quiet_def loaded_def split: sum.splits option.splits)
  with Cons.IH [of "load_step_quiet f ds"] show ?case by simp
qed

lemma loaded_no_date:
  assumes "timestamp_of (basename (path f)) = Inr None"
  shows "loaded f = []"
  using assms by (simp add: loaded_def split: sum.splits)

lemma skip_keeps_datasets:
  assumes "loaded f = []"
  shows "fst (fold load_step (xs @ f # ys) (ds, out)) = fst (fold load_step (xs @ ys) (ds, out))"
    and "fold load_step_quiet (xs @ f # ys) ds = fold load_step_quiet (xs @ ys) ds"
  unfolding fold_load_step fold_load_step_quiet using assms by simp_all

lemma ex_daily_match:
  "match_ymd ''AQUA_MODIS.20250919.L3m.DAY.CHL.x_chlor_a.nc'' = Some ''20250919''"
  by code_simp

lemma ex_daily_fields: "ymd_fields ''20250919'' = (2025, 9, 19)"
  by (simp add: ymd_fields_def int_of_digits_def digit_val_def)

lemma ex_daily_valid: "valid_date (2025, 9, 19)"
  by (simp add: valid_date_def days_in_month_def)

lemma ex_composite_match: "match_ymd ''A20252742025281.nc'' = Some ''20252742''"
  by code_simp

lemma ex_composite_fields: "ymd_fields ''20252742'' = (2025, 27, 42)"
  by (simp add: ymd_fields_def int_of_digits_def digit_val_def)

lemma ex_composite_invalid: "\<not> valid_date (2025, 27, 42)"
  by (simp add: valid_date_def)

lemma ex_composite_julian: "match_julian ''A20252742025281.nc'' = Some (''2025'', ''274'')"
  by code_simp

lemma ex_julian_no_ymd: "match_ymd ''A2025274.L3m.nc'' = None"
  by code_simp

lemma ex_julian_match: "match_julian ''A2025274.L3m.nc'' = Some (''2025'', ''274'')"
  by code_simp

lemma ex_274: "int_of_digits ''274'' = 274"
  by (simp add: int_of_digits_def digit_val_def)

lemma ex_readme_no_ymd: "match_ymd ''readme.nc'' = None"
  by code_simp

lemma ex_readme_no_julian: "match_julian ''readme.nc'' = None"
  by code_simp

lemma ex_readme_basename: "basename ''Data/readme.nc'' = ''readme.nc''"
  by (simp add: basename_def)

lemma ex_readme_timestamp: "timestamp_of ''readme.nc'' = Inr None"
  by (rule timestamp_of_neither [OF ex_readme_no_ymd ex_readme_no_julian])

text \<open>
  Claim C2, as stated, at the composite name \<open>A20252742025281.nc\<close>: it matches the
  year and day-of-year pattern with day 274 of 2025, yet no timestamp is recovered,
  because the first pattern matches \<open>20252742\<close> and its conversion raises.
\<close>

theorem date_recovery_counterexample:
  "match_julian ''A20252742025281.nc'' = Some (''2025'', ''274'') \<and>
   int_of_digits ''274'' = 274 \<and>
   timestamp_of ''A20252742025281.nc'' = Inl ValueError"
proof -
  have "\<not> valid_date (ymd_fields ''20252742'')"
    by (simp only: ex_composite_fields ex_composite_invalid not_False_eq_True)
  with timestamp_of_ymd [OF ex_composite_match]
  have "timestamp_of ''A20252742025281.nc'' = Inl ValueError"
    by (simp only: if_False)
  with ex_composite_julian ex_274 show ?thesis by blast
qed

lemma filename_timestamps:
  "(match_ymd name = Some s \<longrightarrow>
      length s = 8 \<and> take 4 s = ''2025'' \<and> list_all is_digit s \<and>
      (\<exists>pre post. name = pre @ s @ post) \<and> fst (ymd_fields s) = 2025 \<and>
      (valid_date (ymd_fields s) \<longrightarrow> timestamp_of name = Inr (Some (ymd_fields s))) \<and>
      (\<not> valid_date (ymd_fields s) \<longrightarrow> timestamp_of name = Inl ValueError)) \<and>
   (match_ymd name = None \<and> match_julian name = Some (g1, g2) \<and>
    1 \<le> int_of_digits g2 \<and> int_of_digits g2 \<le> 365 \<longrightarrow>
      (\<exists>t. timestamp_of name = Inr (Some t) \<and> valid_date t \<and> fst t = 2025 \<and>
           yearday t = int_of_digits g2)) \<and>
   (match_ymd name = None \<and> match_julian name = None \<longrightarrow> timestamp_of name = Inr None) \<and>
   (opened f = Inr g \<and> timestamp_of (basename (path f)) = Inr None \<longrightarrow>
      load_step f (ds, out) = (ds, out @ [Warning_could_not_parse_date (basename (path f))]) \<and>
      load_step_quiet f ds = ds \<and>
      fst (fold load_step (xs @ f # ys) (ds, out)) = fst (fold load_step (xs @ ys) (ds, out)) \<and>
      fold load_step_quiet (xs @ f # ys) ds = fold load_step_quiet (xs @ ys) ds)"
proof (intro conjI impI)
  assume m: "match_ymd name = Some s"
  from match_ymd_Some [OF m]
  show "length s = 8" "take 4 s = ''2025''" "list_all is_digit s" "\<exists>pre post. name = pre @ s @ post"
    by blast+
  show "fst (ymd_fields s) = 2025" by (rule ymd_fields_year [OF m])
  {
    assume "valid_date (ymd_fields s)"
    then show "timestamp_of name = Inr (Some (ymd_fields s))"
      by (simp add: timestamp_of_ymd [OF m])
  }
  {
    assume "\<not> valid_date (ymd_fields s)"
    then show "timestamp_of name = Inl ValueError"
      by (simp add: timestamp_of_ymd [OF m])
  }
next
  assume a: "match_ymd name = None \<and> match_julian name = Some (g1, g2) \<and>
    1 \<le> int_of_digits g2 \<and> int_of_digits g2 \<le> 365"
  then have h: "match_ymd name = None" "match_julian name = Some (g1, g2)"
    "1 \<le> int_of_digits g2" "int_of_digits g2 \<le> 365"
    by blast+
  have "timestamp_of name = Inr (Some (from_julian 2025 1 (int_of_digits g2)))"
    by (rule timestamp_of_julian [OF h])
  with from_julian_2025 [OF h(3,4)]
  show "\<exists>t. timestamp_of name = Inr (Some t) \<and> valid_date t \<and> fst t = 2025 \<and>
      yearday t = int_of_digits g2"
    by blast
next
  assume "match_ymd name = None \<and> match_julian name = None"
  then show "timestamp_of name = Inr None"
    by (simp add: timestamp_of_neither)
next
  assume a: "opened f = Inr g \<and> timestamp_of (basename (path f)) = Inr None"
  then show "load_step f (ds, out) = (ds, out @ [Warning_could_not_parse_date (basename (path f))])"
    by (simp add: load_step_def)
  from a show "load_step_quiet f ds = ds"
    by (simp add: load_step_quiet_def)
  from a have l: "loaded f = []" by (simp add: loaded_no_date)
  show "fst (fold load_step (xs @ f # ys) (ds, out)) = fst (fold load_step (xs @ ys) (ds, out))"
    by (rule skip_keeps_datasets(1) [OF l])
  show "fold load_step_quiet (xs @ f # ys) ds = fold load_step_quiet (xs @ ys) ds"
    by (rule skip_keeps_datasets(2) [OF l])
qed


lemma loaded_parse_error:
  assumes "timestamp_of (basename (path f)) = Inl e"
  shows "loaded f = []"
  using assms by (simp add: loaded_def split: sum.splits)

lemma load_and_merge_none_loaded:
  assumes "file_list fs (resolve_pattern fs data_folder) \<noteq> []"
    and "\<forall>f\<in>set (file_list fs (resolve_pattern fs data_folder)). loaded f = []"
  shows "snd (load_and_merge cc fs) = Exit None"
    and "last (fst (load_and_merge cc fs)) = Error_no_valid_datasets"
proof -
  let ?files = "file_list fs (resolve_pattern fs data_folder)"
  let ?st = "fold load_step ?files
       ([], (if isdir fs data_folder then [Loading_files] @ [Note_is_directory data_folder]
             else [Loading_files]) @ [Found_files (length ?files)])"
  have "concat (map loaded ?files) = []" using assms(2) by simp
  then have "fst ?st = []" by (simp add: fold_load_step)
  then obtain out where st: "?st = ([], out)" by (cases ?st) simp
  then have r: "load_and_merge cc fs = (out @ [Error_no_valid_datasets], Exit None)"
    using assms(1) by (simp add: load_and_merge_def Let_def)
  show "snd (load_and_merge cc fs) = Exit None" by (simp add: r)
  show "last (fst (load_and_merge cc fs)) = Error_no_valid_datasets" by (simp add: r)
qed

lemma output_main_none_loaded:
  assumes "file_list fs (resolve_pattern fs data_folder_chl) \<noteq> []"
    and "\<forall>f\<in>set (file_list fs (resolve_pattern fs data_folder_chl)). loaded f = []"
  shows "output_main resample cc fs = ([Loading_satellite_data], Uncaught ValueError)"
proof -
  have "concat (map loaded (file_list fs (resolve_pattern fs data_folder_chl))) = []"
    using assms(2) by simp
  then have "load_data cc fs = ([Loading_satellite_data], Uncaught ValueError)"
    using assms(1) by (simp add: load_data_def Let_def fold_load_step_quiet)
  then show ?thesis by (simp add: output_main_def)
qed

lemma load_and_merge_some_loaded:
  assumes "concat (map loaded (file_list fs (resolve_pattern fs data_folder))) \<noteq> []"
    and "cc (map snd (concat (map loaded (file_list fs (resolve_pattern fs data_folder))))) = None"
  shows "snd (load_and_merge cc fs) =
     Done (sort_key fst (concat (map loaded (file_list fs (resolve_pattern fs data_folder)))))"
proof -
  let ?files = "file_list fs (resolve_pattern fs data_folder)"
  let ?st = "fold load_step ?files
       ([], (if isdir fs data_folder then [Loading_files] @ [Note_is_directory data_folder]
             else [Loading_files]) @ [Found_files (length ?files)])"
  have f: "fst ?st = concat (map loaded ?files)" by (simp add: fold_load_step)
  then obtain out where st: "?st = (concat (map loaded ?files), out)" by (cases ?st) simp
  have ne: "?files \<noteq> []" using assms(1) by auto
  show ?thesis
    using assms ne st by (simp add: load_and_merge_def Let_def)
qed

lemma load_data_some_loaded:
  assumes "concat (map loaded (file_list fs (resolve_pattern fs data_folder_chl))) \<noteq> []"
    and "cc (map snd (concat (map loaded (file_list fs (resolve_pattern fs data_folder_chl))))) = None"
  shows "snd (load_data cc fs) =
     Done (sort_key fst (concat (map loaded (file_list fs (resolve_pattern fs data_folder_chl)))))"
proof -
  have ne: "file_list fs (resolve_pattern fs data_folder_chl) \<noteq> []" using assms(1) by auto
  show ?thesis
    using assms ne by (simp add: load_data_def Let_def fold_load_step_quiet)
qed

lemma ex_composite_basename: "basename ''Data/A20252742025281.nc'' = ''A20252742025281.nc''"
  by (simp add: basename_def)

lemma ex_readme_files:
  "file_list readme_folder p = [\<lparr>path = ''Data/readme.nc'', isfile = True, opened = Inr ()\<rparr>]"
  by (simp add: file_list_def readme_folder_def)

lemma ex_readme_loaded:
  "loaded \<lparr>path = ''Data/readme.nc'', isfile = True, opened = Inr ()\<rparr> = []"
  by (rule loaded_no_date) (simp add: ex_readme_basename ex_readme_timestamp)

lemma ex_one_day_files:
  "file_list one_day_folder p =
     [\<lparr>path = ''Data/AQUA_MODIS.20250919.L3m.DAY.CHL.nc'', isfile = True, opened = Inr ()\<rparr>]"
  by (simp add: file_list_def one_day_folder_def)

lemma ex_one_day_match:
  "match_ymd ''AQUA_MODIS.20250919.L3m.DAY.CHL.nc'' = Some ''20250919''"
  by code_simp

lemma ex_one_day_basename:
  "basename ''Data/AQUA_MODIS.20250919.L3m.DAY.CHL.nc'' = ''AQUA_MODIS.20250919.L3m.DAY.CHL.nc''"
  by (simp add: basename_def)

lemma ex_one_day_loaded:
  "loaded \<lparr>path = ''Data/AQUA_MODIS.20250919.L3m.DAY.CHL.nc'', isfile = True, opened = Inr ()\<rparr> =
     [((2025, 9, 19), ())]"
proof -
  have "timestamp_of ''AQUA_MODIS.20250919.L3m.DAY.CHL.nc'' = Inr (Some (2025, 9, 19))"
    using timestamp_of_ymd [OF ex_one_day_match] ex_daily_valid
    by (simp only: ex_daily_fields if_True)
  then show ?thesis by (simp add: loaded_def ex_one_day_basename)
qed

text \<open>
  Claim C2, amended. The loaders search a filename for \<open>2025\<close> followed by four digits
  first, and use the search for \<open>2025\<close> followed by three digits only when the first
  search finds nothing. When the first search matches and the eight digits form a
  calendar date, the timestamp is exactly that date of 2025; when they do not form a
  date, \<^verbatim>\<open>pd.to_datetime\<close> raises and the day-of-year reading is not tried. When only
  the second search matches and its three digits are a day of the year from 1 to 365,
  the timestamp is the date of 2025 with that day of the year. A filename matching
  neither has no timestamp: processing.py skips it with a warning, output.py skips it
  without a message. A filename whose conversion raises is skipped too: processing.py
  prints that it skips the file and why, output.py prints nothing. In both cases the
  files before and after it are loaded as if it were not in the list, and the run is
  assembled from them whenever at least one file is loaded and the grids can be joined.
  When no file is loaded, processing.py prints that no valid dataset could be loaded and
  stops, and output.py ends with the error that joining an empty list raises.
\<close>

theorem date_recovery:
  "((match_ymd name = Some s \<longrightarrow>
      length s = 8 \<and> take 4 s = ''2025'' \<and> list_all is_digit s \<and>
      (\<exists>pre post. name = pre @ s @ post) \<and> fst (ymd_fields s) = 2025 \<and>
      (valid_date (ymd_fields s) \<longrightarrow> timestamp_of name = Inr (Some (ymd_fields s))) \<and>
      (\<not> valid_date (ymd_fields s) \<longrightarrow> timestamp_of name = Inl ValueError)) \<and>
   (match_ymd name = None \<and> match_julian name = Some (g1, g2) \<and>
    1 \<le> int_of_digits g2 \<and> int_of_digits g2 \<le> 365 \<longrightarrow>
      (\<exists>t. timestamp_of name = Inr (Some t) \<and> valid_date t \<and> fst t = 2025 \<and>
           yearday t = int_of_digits g2)) \<and>
   (match_ymd name = None \<and> match_julian name = None \<longrightarrow> timestamp_of name = Inr None) \<and>
   (opened f = Inr g \<and> timestamp_of (basename (path f)) = Inr None \<longrightarrow>
      load_step f (ds, out) = (ds, out @ [Warning_could_not_parse_date (basename (path f))]) \<and>
      load_step_quiet f ds = ds \<and>
      fst (fold load_step (xs @ f # ys) (ds, out)) = fst (fold load_step (xs @ ys) (ds, out)) \<and>
      fold load_step_quiet (xs @ f # ys) ds = fold load_step_quiet (xs @ ys) ds)) \<and>
   (opened f = Inr g \<and> timestamp_of (basename (path f)) = Inl e \<longrightarrow>
      load_step f (ds, out) = (ds, out @ [Skipping_due_to_error (path f) e]) \<and>
      load_step_quiet f ds = ds \<and>
      fst (fold load_step (xs @ f # ys) (ds, out)) = fst (fold load_step (xs @ ys) (ds, out)) \<and>
      fold load_step_quiet (xs @ f # ys) ds = fold load_step_quiet (xs @ ys) ds) \<and>
   (file_list fs (resolve_pattern fs data_folder) \<noteq> [] \<and>
    (\<forall>f\<in>set (file_list fs (resolve_pattern fs data_folder)). loaded f = []) \<longrightarrow>
      snd (load_and_merge cc fs) = Exit None \<and>
      last (fst (load_and_merge cc fs)) = Error_no_valid_datasets) \<and>
   (file_list fs (resolve_pattern fs data_folder_chl) \<noteq> [] \<and>
    (\<forall>f\<in>set (file_list fs (resolve_pattern fs data_folder_chl)). loaded f = []) \<longrightarrow>
      output_main resample cc fs = ([Loading_satellite_data], Uncaught ValueError) \<and>
      exit_status (snd (output_main resample cc fs)) = 1) \<and>
   (concat (map loaded (file_list fs (resolve_pattern fs data_folder))) \<noteq> [] \<and>
    cc (map snd (concat (map loaded (file_list fs (resolve_pattern fs data_folder))))) = None \<longrightarrow>
      snd (load_and_merge cc fs) =
        Done (sort_key fst (concat (map loaded (file_list fs (resolve_pattern fs data_folder)))))) \<and>
   (concat (map loaded (file_list fs (resolve_pattern fs data_folder_chl))) \<noteq> [] \<and>
    cc (map snd (concat (map loaded (file_list fs (resolve_pattern fs data_folder_chl))))) = None \<longrightarrow>
      snd (load_data cc fs) =
        Done (sort_key fst (concat (map loaded (file_list fs (resolve_pattern fs data_folder_chl))))))"
proof (rule conjI [OF filename_timestamps], intro conjI impI)
  assume a: "opened f = Inr g \<and> timestamp_of (basename (path f)) = Inl e"
  then show "load_step f (ds, out) = (ds, out @ [Skipping_due_to_error (path f) e])"
    by (simp add: load_step_def)
  from a show "load_step_quiet f ds = ds"
    by (simp add: load_step_quiet_def)
  from a have l: "loaded f = []" by (simp add: loaded_parse_error)
  show "fst (fold load_step (xs @ f # ys) (ds, out)) = fst (fold load_step (xs @ ys) (ds, out))"
    by (rule skip_keeps_datasets(1) [OF l])
  show "fold load_step_quiet (xs @ f # ys) ds = fold load_step_quiet (xs @ ys) ds"
    by (rule skip_keeps_datasets(2) [OF l])
next
  assume a: "file_list fs (resolve_pattern fs data_folder) \<noteq> [] \<and>
    (\<forall>f\<in>set (file_list fs (resolve_pattern fs data_folder)). loaded f = [])"
  then have h: "file_list fs (resolve_pattern fs data_folder) \<noteq> []"
    "\<forall>f\<in>set (file_list fs (resolve_pattern fs data_folder)). loaded f = []" by blast+
  show "snd (load_and_merge cc fs) = Exit None"
    by (rule load_and_merge_none_loaded(1) [OF h])
  show "last (fst (load_and_merge cc fs)) = Error_no_valid_datasets"
    by (rule load_and_merge_none_loaded(2) [OF h])
next
  assume a: "file_list fs (resolve_pattern fs data_folder_chl) \<noteq> [] \<and>
    (\<forall>f\<in>set (file_list fs (resolve_pattern fs data_folder_chl)). loaded f = [])"
  then have h: "file_list fs (resolve_pattern fs data_folder_chl) \<noteq> []"
    "\<forall>f\<in>set (file_list fs (resolve_pattern fs data_folder_chl)). loaded f = []" by blast+
  show r: "output_main resample cc fs = ([Loading_satellite_data], Uncaught ValueError)"
    by (rule output_main_none_loaded [OF h])
  show "exit_status (snd (output_main resample cc fs)) = 1" by (simp add: r)
next
  assume "concat (map loaded (file_list fs (resolve_pattern fs data_folder))) \<noteq> [] \<and>
    cc (map snd (concat (map loaded (file_list fs (resolve_pattern fs data_folder))))) = None"
  then show "snd (load_and_merge cc fs) =
        Done (sort_key fst (concat (map loaded (file_list fs (resolve_pattern fs data_folder)))))"
    by (intro load_and_merge_some_loaded) blast+
next
  assume "concat (map loaded (file_list fs (resolve_pattern fs data_folder_chl))) \<noteq> [] \<and>
    cc (map snd (concat (map loaded (file_list fs (resolve_pattern fs data_folder_chl))))) = None"
  then show "snd (load_data cc fs) =
        Done (sort_key fst (concat (map loaded (file_list fs (resolve_pattern fs data_folder_chl)))))"
    by (intro load_data_some_loaded) blast+
qed

text \<open>
  The four kinds of filename at concrete names: a daily product name, a composite name
  whose eight digits are no date, a day-of-year name, and a name without a date.
\<close>

theorem date_recovery_witness:
  "timestamp_of ''AQUA_MODIS.20250919.L3m.DAY.CHL.x_chlor_a.nc'' = Inr (Some (2025, 9, 19)) \<and>
   timestamp_of ''A20252742025281.nc'' = Inl ValueError \<and>
   (\<exists>t. timestamp_of ''A2025274.L3m.nc'' = Inr (Some t) \<and> valid_date t \<and> fst t = 2025 \<and>
        yearday t = 274) \<and>
   timestamp_of ''readme.nc'' = Inr None \<and>
   load_step \<lparr>path = ''Data/readme.nc'', isfile = True, opened = Inr ()\<rparr> ([], [Found_files 1]) =
     ([], [Found_files 1] @ [Warning_could_not_parse_date ''readme.nc'']) \<and>
   fold load_step_quiet
     ([] @ \<lparr>path = ''Data/readme.nc'', isfile = True, opened = Inr ()\<rparr> #
      [\<lparr>path = ''Data/A2025274.L3m.nc'', isfile = True, opened = Inr ()\<rparr>]) [] =
   fold load_step_quiet
     ([] @ [\<lparr>path = ''Data/A2025274.L3m.nc'', isfile = True, opened = Inr ()\<rparr>]) [] \<and>
   load_step \<lparr>path = ''Data/A20252742025281.nc'', isfile = True, opened = Inr ()\<rparr>
       ([], [Found_files 1]) =
     ([], [Found_files 1] @ [Skipping_due_to_error ''Data/A20252742025281.nc'' ValueError]) \<and>
   load_step_quiet \<lparr>path = ''Data/A20252742025281.nc'', isfile = True, opened = Inr ()\<rparr> [] = [] \<and>
   snd (load_and_merge concat_ok readme_folder) = Exit None \<and>
   last (fst (load_and_merge concat_ok readme_folder)) = Error_no_valid_datasets \<and>
   output_main no_chlor_a concat_ok readme_folder =
     ([Loading_satellite_data], Uncaught ValueError) \<and>
   exit_status (snd (output_main no_chlor_a concat_ok readme_folder)) = 1 \<and>
   snd (load_and_merge concat_ok one_day_folder) = Done [((2025, 9, 19), ())] \<and>
   snd (load_data concat_ok one_day_folder) = Done [((2025, 9, 19), ())]"
proof -
  note core = date_recovery [THEN conjunct1]
  have v1: "valid_date (ymd_fields ''20250919'')"
    by (simp only: ex_daily_fields ex_daily_valid)
  note a = core [THEN conjunct1, THEN mp, OF ex_daily_match, THEN conjunct2,
      THEN conjunct2, THEN conjunct2, THEN conjunct2, THEN conjunct2, THEN conjunct1,
      THEN mp, OF v1, unfolded ex_daily_fields]
  have v2: "\<not> valid_date (ymd_fields ''20252742'')"
    by (simp only: ex_composite_fields ex_composite_invalid not_False_eq_True)
  note b = core [THEN conjunct1, THEN mp, OF ex_composite_match, THEN conjunct2,
      THEN conjunct2, THEN conjunct2, THEN conjunct2, THEN conjunct2, THEN conjunct2,
      THEN mp, OF v2]
  have j: "1 \<le> int_of_digits ''274''" "int_of_digits ''274'' \<le> 365"
    unfolding ex_274 by simp_all
  note c = core [THEN conjunct2, THEN conjunct1, THEN mp,
      OF conjI [OF ex_julian_no_ymd conjI [OF ex_julian_match conjI [OF j]]],
      unfolded ex_274]
  note d = core [THEN conjunct2, THEN conjunct2, THEN conjunct1, THEN mp,
      OF conjI [OF ex_readme_no_ymd ex_readme_no_julian]]
  define f :: "unit nc_file"
    where "f = \<lparr>path = ''Data/readme.nc'', isfile = True, opened = Inr ()\<rparr>"
  have o: "opened f = Inr ()" by (simp add: f_def)
  have p: "basename (path f) = ''readme.nc''" by (simp add: f_def ex_readme_basename)
  have t: "timestamp_of (basename (path f)) = Inr None"
    by (simp only: p ex_readme_timestamp)
  note e = core [THEN conjunct2, THEN conjunct2, THEN conjunct2, THEN mp,
      OF conjI [OF o t]]
  note e1 = e [THEN conjunct1, of "[]" "[Found_files 1]", unfolded p, unfolded f_def]
  note e2 = e [THEN conjunct2, THEN conjunct2, THEN conjunct2, of "[]"
      "[\<lparr>path = ''Data/A2025274.L3m.nc'', isfile = True, opened = Inr ()\<rparr>]" "[]",
      unfolded f_def]
  define h :: "unit nc_file"
    where "h = \<lparr>path = ''Data/A20252742025281.nc'', isfile = True, opened = Inr ()\<rparr>"
  have ho: "opened h = Inr ()" by (simp add: h_def)
  have hp: "basename (path h) = ''A20252742025281.nc''"
    by (simp add: h_def ex_composite_basename)
  have ht: "timestamp_of (basename (path h)) = Inl ValueError"
    by (simp only: hp b)
  note s = date_recovery [THEN conjunct2, THEN conjunct1, THEN mp, OF conjI [OF ho ht]]
  have hpath: "path h = ''Data/A20252742025281.nc''" by (simp add: h_def)
  note s1 = s [THEN conjunct1, of "[]" "[Found_files 1]", unfolded hpath, unfolded h_def]
  note s2 = s [THEN conjunct2, THEN conjunct1, of "[]", unfolded h_def]
  have n1: "file_list readme_folder (resolve_pattern readme_folder data_folder) \<noteq> []"
    and n2: "\<forall>f\<in>set (file_list readme_folder (resolve_pattern readme_folder data_folder)).
      loaded f = []"
    and n3: "file_list readme_folder (resolve_pattern readme_folder data_folder_chl) \<noteq> []"
    and n4: "\<forall>f\<in>set (file_list readme_folder (resolve_pattern readme_folder data_folder_chl)).
      loaded f = []"
    by (simp_all add: ex_readme_files ex_readme_loaded)
  note p = date_recovery [THEN conjunct2, THEN conjunct2, THEN conjunct1, THEN mp,
      OF conjI [OF n1 n2], of concat_ok]
  note q = date_recovery [THEN conjunct2, THEN conjunct2, THEN conjunct2, THEN conjunct1,
      THEN mp, OF conjI [OF n3 n4], of no_chlor_a concat_ok]
  have m1: "concat (map loaded (file_list one_day_folder (resolve_pattern one_day_folder data_folder)))
      = [((2025, 9, 19), ())]"
    and m2: "concat (map loaded (file_list one_day_folder
      (resolve_pattern one_day_folder data_folder_chl))) = [((2025, 9, 19), ())]"
    by (simp_all add: ex_one_day_files ex_one_day_loaded)
  have k1: "concat (map loaded (file_list one_day_folder (resolve_pattern one_day_folder data_folder)))
      \<noteq> []" unfolding m1 by simp
  have k2: "concat (map loaded (file_list one_day_folder
      (resolve_pattern one_day_folder data_folder_chl))) \<noteq> []" unfolding m2 by simp
  have c1: "concat_ok (map snd (concat (map loaded (file_list one_day_folder
      (resolve_pattern one_day_folder data_folder))))) = None" by (simp add: concat_ok_def)
  have c2: "concat_ok (map snd (concat (map loaded (file_list one_day_folder
      (resolve_pattern one_day_folder data_folder_chl))))) = None" by (simp add: concat_ok_def)
  note u = date_recovery [where fs = one_day_folder and cc = concat_ok, THEN conjunct2,
      THEN conjunct2, THEN conjunct2, THEN conjunct2, THEN conjunct1, THEN mp,
      OF conjI [OF k1 c1], unfolded m1]
  note v = date_recovery [where fs = one_day_folder and cc = concat_ok, THEN conjunct2,
      THEN conjunct2, THEN conjunct2, THEN conjunct2, THEN conjunct2, THEN mp,
      OF conjI [OF k2 c2], unfolded m2]
  have u': "snd (load_and_merge concat_ok one_day_folder) = Done [((2025, 9, 19), ())]"
    using u by simp
  have v': "snd (load_data concat_ok one_day_folder) = Done [((2025, 9, 19), ())]"
    using v by simp
  show ?thesis
    by (intro conjI) (rule a b c d e1 e2 s1 s2 p [THEN conjunct1] p [THEN conjunct2]
        q [THEN conjunct1] q [THEN conjunct2] u' v')+
qed

subsection \<open>Assembly: the time index\<close>

lemma sorted_strict_distinct:
  fixes xs :: "'a::linorder list"
  assumes "sorted xs"
  shows "sorted_wrt (<) xs \<longleftrightarrow> distinct xs"
  using assms by (induction xs) (auto simp: less_le)

lemma assembled_sorted:
  "sorted (time_index (sort_key fst datasets))"
  unfolding time_index_def by (rule sorted_sort_key)

lemma load_and_merge_Done:
  assumes "snd (load_and_merge cc fs) = Done ds"
  shows "ds = sort_key fst (concat (map loaded (file_list fs (resolve_pattern fs data_folder))))"
proof -
  let ?files = "file_list fs (resolve_pattern fs data_folder)"
  obtain datasets out where st:
    "fold load_step ?files
       ([], (if isdir fs data_folder then [Loading_files] @ [Note_is_directory data_folder]
             else [Loading_files]) @ [Found_files (length ?files)]) = (datasets, out)"
    by (cases "fold load_step ?files
       ([], (if isdir fs data_folder then [Loading_files] @ [Note_is_directory data_folder]
             else [Loading_files]) @ [Found_files (length ?files)])")
  have d: "datasets = concat (map loaded ?files)"
    using fold_load_step [of ?files "[]"] st
    by (metis append_Nil fst_conv)
  from assms st have "ds = sort_key fst datasets"
    by (auto simp: load_and_merge_def Let_def split: if_splits option.splits)
  with d show ?thesis by simp
qed

lemma load_data_Done:
  assumes "snd (load_data cc fs) = Done ds"
  shows "ds = sort_key fst (concat (map loaded (file_list fs (resolve_pattern fs data_folder_chl))))"
  using assms
  by (auto simp: load_data_def Let_def fold_load_step_quiet split: if_splits option.splits)

text \<open>
  Claim C4, amended. For every list of files, in whatever order the folder lists them,
  the dataset that either loader assembles holds exactly the grids of the files that
  opened and carry a date, and its time index is in non-decreasing order; it is strictly
  increasing exactly when no two of those files carry the same date. The later stages
  read the dataset and never rebind it.
\<close>

theorem time_index_sorted:
  "(snd (load_and_merge cc fs) = Done ds \<or> snd (load_data cc fs) = Done ds \<longrightarrow>
      sorted (time_index ds) \<and>
      (sorted_wrt (<) (time_index ds) \<longleftrightarrow> distinct (time_index ds))) \<and>
   (snd (load_and_merge cc fs) = Done ds \<longrightarrow>
      mset ds = mset (concat (map loaded (file_list fs (resolve_pattern fs data_folder))))) \<and>
   (snd (load_data cc fs) = Done ds \<longrightarrow>
      mset ds = mset (concat (map loaded (file_list fs (resolve_pattern fs data_folder_chl)))))"
proof (intro conjI impI)
  assume "snd (load_and_merge cc fs) = Done ds \<or> snd (load_data cc fs) = Done ds"
  then obtain xs where "ds = sort_key fst xs"
    using load_and_merge_Done load_data_Done by blast
  then show s: "sorted (time_index ds)" by (simp only: assembled_sorted)
  show "sorted_wrt (<) (time_index ds) \<longleftrightarrow> distinct (time_index ds)"
    by (rule sorted_strict_distinct [OF s])
next
  assume "snd (load_and_merge cc fs) = Done ds"
  from load_and_merge_Done [OF this]
  show "mset ds = mset (concat (map loaded (file_list fs (resolve_pattern fs data_folder))))"
    by simp
next
  assume "snd (load_data cc fs) = Done ds"
  from load_data_Done [OF this]
  show "mset ds = mset (concat (map loaded (file_list fs (resolve_pattern fs data_folder_chl))))"
    by simp
qed

lemma ex_same_day_run:
  "snd (load_and_merge concat_ok same_day_folder) =
     Done [((2025, 9, 19), ()), ((2025, 9, 19), ())]"
  by code_simp

text \<open>
  Claim C4, as stated, at a folder with two daily files of the same day: the assembled
  time index holds that day twice, so it is not strictly increasing.
\<close>

theorem time_index_sorted_counterexample:
  "snd (load_and_merge concat_ok same_day_folder) =
     Done [((2025, 9, 19), ()), ((2025, 9, 19), ())] \<and>
   \<not> sorted_wrt (<) (time_index [((2025, 9, 19), ()), ((2025::nat, 9::nat, 19::nat), ())])"
  by (simp add: ex_same_day_run time_index_def)

text \<open>The same folder: its time index is sorted, and strict order fails with distinctness.\<close>

theorem time_index_sorted_witness:
  "sorted (time_index [((2025, 9, 19), ()), ((2025::nat, 9::nat, 19::nat), ())]) \<and>
   (sorted_wrt (<) (time_index [((2025, 9, 19), ()), ((2025::nat, 9::nat, 19::nat), ())]) \<longleftrightarrow>
    distinct (time_index [((2025, 9, 19), ()), ((2025::nat, 9::nat, 19::nat), ())])) \<and>
   mset [((2025, 9, 19), ()), ((2025::nat, 9::nat, 19::nat), ())] =
   mset (concat (map loaded (file_list same_day_folder (resolve_pattern same_day_folder data_folder))))"
proof -
  note T = time_index_sorted [where cc = concat_ok and fs = same_day_folder
      and ds = "[((2025, 9, 19), ()), ((2025, 9, 19), ())]"]
  note a = T [THEN conjunct1, THEN mp, OF disjI1 [OF ex_same_day_run]]
  note b = T [THEN conjunct2, THEN conjunct1, THEN mp, OF ex_same_day_run]
  from a b show ?thesis by (intro conjI) blast+
qed

subsection \<open>An empty file list\<close>

lemma load_and_merge_empty:
  assumes "file_list fs (resolve_pattern fs data_folder) = []"
  shows "load_and_merge cc fs =
     ((if isdir fs data_folder then [Loading_files, Note_is_directory data_folder]
       else [Loading_files]) @
      [Error_no_nc_files_found (resolve_pattern fs data_folder), Tip_check_path], Exit None)"
  using assms by (simp add: load_and_merge_def Let_def)

lemma load_data_empty:
  assumes "file_list fs (resolve_pattern fs data_folder_chl) = []"
  shows "load_data cc fs = ([Loading_satellite_data, Error_no_files_found], Exit None)"
  using assms by (simp add: load_data_def Let_def)

text \<open>
  Claim C1, amended. Whenever the resolved file list is empty, processing.py and
  output.py print their error message and stop before any file is opened and before
  assembly: nothing but the loading line (and the directory note) precedes the message
  and no report line follows. They stop through \<^verbatim>\<open>exit()\<close> without an argument, so the
  exit status of the process is 0.
\<close>

theorem empty_file_list_exit:
  "(file_list fs (resolve_pattern fs data_folder) = [] \<longrightarrow>
      processing_main resample cc fs =
        ((if isdir fs data_folder then [Loading_files, Note_is_directory data_folder]
          else [Loading_files]) @
         [Error_no_nc_files_found (resolve_pattern fs data_folder), Tip_check_path], Exit None) \<and>
      exit_status (snd (processing_main resample cc fs)) = 0) \<and>
   (file_list fs (resolve_pattern fs data_folder_chl) = [] \<longrightarrow>
      output_main resample cc fs = ([Loading_satellite_data, Error_no_files_found], Exit None) \<and>
      exit_status (snd (output_main resample cc fs)) = 0)"
  by (simp add: processing_main_def output_main_def load_and_merge_empty load_data_empty)

lemma ex_empty_folder:
  "file_list empty_folder (resolve_pattern empty_folder data_folder) = []"
  "file_list empty_folder (resolve_pattern empty_folder data_folder_chl) = []"
  by (simp_all add: file_list_def empty_folder_def)

lemma ex_empty_not_dir: "\<not> isdir empty_folder data_folder"
  by (simp add: empty_folder_def)

text \<open>
  Claim C1, as stated, at a folder in which the pattern matches nothing: the file list is
  empty and the exit status of both scripts is 0, not a nonzero status.
\<close>

theorem empty_file_list_exit_counterexample:
  "file_list empty_folder (resolve_pattern empty_folder data_folder) = [] \<and>
   exit_status (snd (processing_main no_chlor_a concat_ok empty_folder)) = 0 \<and>
   file_list empty_folder (resolve_pattern empty_folder data_folder_chl) = [] \<and>
   exit_status (snd (output_main no_chlor_a concat_ok empty_folder)) = 0"
  by (simp add: ex_empty_folder processing_main_def output_main_def load_and_merge_empty
      load_data_empty)

text \<open>The run of both scripts on the folder in which the pattern matches nothing.\<close>

theorem empty_file_list_exit_witness:
  "processing_main no_chlor_a concat_ok empty_folder =
     ([Loading_files, Error_no_nc_files_found ''Data/*.nc'', Tip_check_path], Exit None) \<and>
   exit_status (snd (processing_main no_chlor_a concat_ok empty_folder)) = 0 \<and>
   output_main no_chlor_a concat_ok empty_folder =
     ([Loading_satellite_data, Error_no_files_found], Exit None) \<and>
   exit_status (snd (output_main no_chlor_a concat_ok empty_folder)) = 0"
proof -
  note T = empty_file_list_exit [where fs = empty_folder and resample = no_chlor_a
      and cc = concat_ok]
  note a = T [THEN conjunct1, THEN mp, OF ex_empty_folder(1)]
  note b = T [THEN conjunct2, THEN mp, OF ex_empty_folder(2)]
  have p: "resolve_pattern empty_folder data_folder = ''Data/*.nc''"
    by (simp add: resolve_pattern_def empty_folder_def data_folder_def)
  from a b show ?thesis
    by (simp add: ex_empty_not_dir p)
qed

subsection \<open>Selection by labels on ordered axes\<close>

lemma prefix_split:
  assumes "sorted_wrt (\<lambda>x y. A y \<longrightarrow> A x) xs"
  shows "take (length (filter A xs)) xs = filter A xs"
    and "drop (length (filter A xs)) xs = filter (\<lambda>x. \<not> A x) xs"
  using assms
proof (induction xs)
  case Nil
  { case 1 show ?case by simp }
  { case 2 show ?case by simp }
next
  case (Cons x xs)
  { case 1
    show ?case
    proof (cases "A x")
      case True
      with Cons.IH(1) "1" show ?thesis by simp
    next
      case False
      with "1" have "\<forall>y\<in>set xs. \<not> A y" by auto
      then have "filter A xs = []" by (simp add: filter_empty_conv)
      with False show ?thesis by simp
    qed }
  { case 2
    show ?case
    proof (cases "A x")
      case True
      with Cons.IH(2) "2" show ?thesis by simp
    next
      case False
      with "2" have n: "\<forall>y\<in>set xs. \<not> A y" by auto
      then have "filter A xs = []" by (simp add: filter_empty_conv)
      moreover from n have "filter (\<lambda>x. \<not> A x) xs = xs" by (simp add: filter_id_conv)
      ultimately show ?thesis using False by simp
    qed }
qed

lemma window_select:
  assumes a: "sorted_wrt (\<lambda>x y. A y \<longrightarrow> A x) xs"
    and b: "sorted_wrt (\<lambda>x y. B y \<longrightarrow> B x) xs"
    and ab: "(\<forall>x\<in>set xs. A x \<longrightarrow> B x) \<or> (\<forall>x\<in>set xs. B x \<longrightarrow> A x)"
  shows "take (length (filter B xs) - length (filter A xs)) (drop (length (filter A xs)) xs) =
         filter (\<lambda>x. \<not> A x \<and> B x) xs"
proof -
  let ?ys = "filter (\<lambda>x. \<not> A x) xs"
  have d: "drop (length (filter A xs)) xs = ?ys" by (rule prefix_split(2) [OF a])
  have "sorted_wrt (\<lambda>x y. B y \<longrightarrow> B x) ?ys" using b by (rule sorted_wrt_filter)
  then have t: "take (length (filter B ?ys)) ?ys = filter B ?ys" by (rule prefix_split(1))
  have len: "length (filter B xs) = length (filter (\<lambda>x. A x \<and> B x) xs) + length (filter B ?ys)"
  proof (induction xs)
    case Nil
    show ?case by simp
  next
    case (Cons x xs)
    then show ?case by simp
  qed
  from ab have "length (filter B xs) - length (filter A xs) = length (filter B ?ys)"
  proof
    assume "\<forall>x\<in>set xs. A x \<longrightarrow> B x"
    then have "filter (\<lambda>x. A x \<and> B x) xs = filter A xs"
      by (intro filter_cong) auto
    with len show ?thesis by simp
  next
    assume h: "\<forall>x\<in>set xs. B x \<longrightarrow> A x"
    then have "filter B ?ys = []" by (auto simp: filter_empty_conv)
    moreover from h have "filter (\<lambda>x. A x \<and> B x) xs = filter B xs"
      by (intro filter_cong) auto
    then have "length (filter B xs) \<le> length (filter A xs)"
      by (metis (mono_tags, lifting) filter_filter length_filter_le)
    ultimately show ?thesis by simp
  qed
  with d t show ?thesis by simp
qed

lemma slice_indexer_ascending:
  assumes "sorted index"
  shows "slice_indexer index start stop =
     Inr (length (filter (\<lambda>x. x < start) index), length (filter (\<lambda>x. x \<le> stop) index))"
  using assms by (simp add: slice_indexer_def get_slice_bound_def searchsorted_def)



lemma select_ascending:
  fixes xs :: "'b list" and key :: "'b \<Rightarrow> 'a::linorder"
  assumes "sorted (map key xs)"
  shows "isel (length (filter (\<lambda>x. x < start) (map key xs)),
               length (filter (\<lambda>x. x \<le> stop) (map key xs))) xs =
         filter (\<lambda>x. start \<le> key x \<and> key x \<le> stop) xs"
proof -
  from assms have s: "sorted_wrt (\<lambda>x y. key x \<le> key y) xs"
    by (simp add: sorted_map)
  have a: "sorted_wrt (\<lambda>x y. key y < start \<longrightarrow> key x < start) xs"
    by (rule sorted_wrt_mono_rel [OF _ s]) auto
  have b: "sorted_wrt (\<lambda>x y. key y \<le> stop \<longrightarrow> key x \<le> stop) xs"
    by (rule sorted_wrt_mono_rel [OF _ s]) auto
  have ab: "(\<forall>x\<in>set xs. key x < start \<longrightarrow> key x \<le> stop) \<or>
            (\<forall>x\<in>set xs. key x \<le> stop \<longrightarrow> key x < start)"
    by (cases "start \<le> stop") auto
  have "filter (\<lambda>x. \<not> key x < start \<and> key x \<le> stop) xs =
        filter (\<lambda>x. start \<le> key x \<and> key x \<le> stop) xs"
    by (intro filter_cong) auto
  with window_select [OF a b ab] show ?thesis
    by (simp add: isel_def length_filter_map comp_def)
qed




lemma sel_time_ascending:
  assumes "sorted (map fst ts)"
  shows "sel_time ts (start, stop) = Inr (filter (\<lambda>p. start \<le> fst p \<and> fst p \<le> stop) ts)"
  using select_ascending [of fst ts start stop] assms
  by (simp add: sel_time_def slice_indexer_ascending)

subsection \<open>Forecast without bloom data\<close>



text \<open>
  Claim C10. In output.py, whenever the weekly chlorophyll series of a zone (in time
  order, as weekly resampling leaves it) has no time step from October 1 to November 30,
  the observed chlorophyll is the number 0.0, not a missing value; the PPI anomaly is
  then exactly \<open>-100\<close> percent, the status CRITICAL, and the forecast a decline of
  \<open>-80.0\<close> percent.
\<close>

theorem no_bloom_data_forecast:
  assumes "sorted (map fst ts)"
    and "\<forall>p\<in>set ts. \<not> ((2025, 10, 1) \<le> fst p \<and> fst p \<le> (2025, 11, 30))"
  shows "predict_zone zone_name ts =
           Inr \<lparr>Zone = zone_name, Observed_Chl = Val 0, PPI_Anomaly = Val (- 100),
                Yield_Forecast = Val (- 80)\<rparr> \<and>
         report_row \<lparr>Zone = zone_name, Observed_Chl = Val 0, PPI_Anomaly = Val (- 100),
                Yield_Forecast = Val (- 80)\<rparr> =
           Report_row zone_name (Val 0) (Val (- 100)) CRITICAL (Decline (Val (- 80)))"
proof -
  have "filter (\<lambda>p. (2025, 10, 1) \<le> fst p \<and> fst p \<le> (2025, 11, 30)) ts = []"
    using assms(2) by (simp add: filter_empty_conv)
  then have "sel_time ts bloom_window = Inr []"
    by (simp add: bloom_window_def sel_time_ascending [OF assms(1)])
  then have "predict_zone zone_name ts =
           Inr \<lparr>Zone = zone_name, Observed_Chl = Val 0, PPI_Anomaly = Val (- 100),
                Yield_Forecast = Val (- 80)\<rparr>"
    by (simp add: predict_zone_def BASELINE_CHL_def yield_gap_def TROPHIC_SENSITIVITY_def)
  moreover have "report_row \<lparr>Zone = zone_name, Observed_Chl = Val 0, PPI_Anomaly = Val (- 100),
                Yield_Forecast = Val (- 80)\<rparr> =
           Report_row zone_name (Val 0) (Val (- 100)) CRITICAL (Decline (Val (- 80)))"
    by (simp add: report_row_def ppi_status_def forecast_string_def)
  ultimately show ?thesis by simp
qed

lemma ex_winter_series:
  "sorted (map fst [((2025, 1, 5), Val 3), ((2025::nat, 1::nat, 12::nat), NaN)])"
  "\<forall>p\<in>set [((2025, 1, 5), Val 3), ((2025::nat, 1::nat, 12::nat), NaN)].
     \<not> ((2025, 10, 1) \<le> fst p \<and> fst p \<le> (2025, 11, 30))"
  by simp_all

text \<open>A series that ends in January: one valid week and one missing week.\<close>

theorem no_bloom_data_forecast_witness:
  "predict_zone ''Mumbai'' [((2025, 1, 5), Val 3), ((2025, 1, 12), NaN)] =
     Inr \<lparr>Zone = ''Mumbai'', Observed_Chl = Val 0, PPI_Anomaly = Val (- 100),
          Yield_Forecast = Val (- 80)\<rparr> \<and>
   report_row \<lparr>Zone = ''Mumbai'', Observed_Chl = Val 0, PPI_Anomaly = Val (- 100),
          Yield_Forecast = Val (- 80)\<rparr> =
     Report_row ''Mumbai'' (Val 0) (Val (- 100)) CRITICAL (Decline (Val (- 80)))"
  by (rule no_bloom_data_forecast [OF ex_winter_series])

subsection \<open>Zone selection\<close>









subsection \<open>Zones without data\<close>













lemma extract_loaded:
  assumes "path_exists env (path_join data_folder_bgc fname)"
    and "open_dataset env (path_join data_folder_bgc fname) = Inr ds"
    and "find_variable var_name ds = Some (target, notes)"
    and "sel_latitude_longitude target lat_slice lon_slice = Inr sub"
    and "times sub \<noteq> []"
    and "valid_count (cells_of_step sub 0) = n" and "0 < n"
  shows "extract_and_process env fname var_name label =
     (notes @ [Loaded_successfully label n], Some (sub, ds))"
  using assms by (simp add: extract_and_process_def Let_def)

lemma ex_land_path:
  "path_join data_folder_bgc file_prod = ''biogeochem_data/konkan_bgc_nppv_o2.nc''"
  by (simp add: path_join_def data_folder_bgc_def file_prod_def)





lemma ex_point_sel:
  assumes "latitude a = [17]" and "longitude a = [73]"
  shows "sel_latitude_longitude a lat_slice lon_slice =
     Inr (a\<lparr>latitude := [17], longitude := [73], data := (\<lambda>t k i j. data a t k (0 + i) (0 + j))\<rparr>)"
proof -
  have la: "slice_indexer (latitude a) (fst lat_slice) (snd lat_slice) = Inr (0, 1)"
    by (simp add: assms slice_indexer_ascending lat_slice_def)
  have lo: "slice_indexer (longitude a) (fst lon_slice) (snd lon_slice) = Inr (0, 1)"
    by (simp add: assms slice_indexer_ascending lon_slice_def)
  show ?thesis
    unfolding sel_latitude_longitude_def la lo by (simp add: isel_def assms)
qed















subsection \<open>Depth integration\<close>

lemma trapz_uniform:
  assumes "xs \<noteq> []"
  shows "trapz xs (map (\<lambda>x. Val v) xs) = Val (v * (last xs - hd xs))"
  using assms
proof (induction xs rule: induct_list012)
  case 1
  then show ?case by simp
next
  case (2 x)
  then show ?case by simp
next
  case (3 x0 x1 xs)
  then have "trapz (x1 # xs) (map (\<lambda>x. Val v) (x1 # xs)) = Val (v * (last (x1 # xs) - x1))"
    by simp
  then show ?case by (simp add: field_simps)
qed

lemma column_uniform:
  assumes "\<forall>t k i j. data b t k i j = Val v"
  shows "column b t i j = map (\<lambda>x. Val v) (depth b)"
  using assms by (simp add: column_def map_replicate_const)

lemma sorted_le_last:
  fixes xs :: "'a::linorder list"
  shows "sorted xs \<Longrightarrow> x \<in> set xs \<Longrightarrow> x \<le> last xs"
  by (induction xs) auto

lemma sorted_hd_le:
  fixes xs :: "'a::linorder list"
  shows "sorted xs \<Longrightarrow> x \<in> set xs \<Longrightarrow> hd xs \<le> x"
  by (cases xs) auto

lemma window_ends:
  fixes xs :: "real list"
  assumes "sorted xs" and "lo \<in> set xs" and "hi \<in> set xs" and "lo \<le> hi"
  shows "filter (\<lambda>x. lo \<le> x \<and> x \<le> hi) xs \<noteq> []"
    and "hd (filter (\<lambda>x. lo \<le> x \<and> x \<le> hi) xs) = lo"
    and "last (filter (\<lambda>x. lo \<le> x \<and> x \<le> hi) xs) = hi"
proof -
  let ?ys = "filter (\<lambda>x. lo \<le> x \<and> x \<le> hi) xs"
  have s: "sorted ?ys" using assms(1) by (rule sorted_wrt_filter)
  have lo: "lo \<in> set ?ys" and hi: "hi \<in> set ?ys" using assms by auto
  from lo show ne: "?ys \<noteq> []" by (cases ?ys) simp_all
  have "hd ?ys \<le> lo" by (rule sorted_hd_le [OF s lo])
  moreover have "lo \<le> hd ?ys" using hd_in_set [OF ne] by simp
  ultimately show "hd ?ys = lo" by simp
  have "hi \<le> last ?ys" by (rule sorted_le_last [OF s hi])
  moreover have "last ?ys \<le> hi" using last_in_set [OF ne] by simp
  ultimately show "last ?ys = hi" by simp
qed

lemma valid_const: "valid (map (\<lambda>x. Val v) xs) = map (\<lambda>x. v) xs"
  by (induction xs) auto

lemma sum_const: "sum_list (map (\<lambda>x. v) xs) = real (length xs) * v"
  by (induction xs) (simp_all add: algebra_simps)

lemma nanmean_const:
  assumes "cs \<noteq> []" and "\<forall>c\<in>set cs. c = Val v"
  shows "nanmean cs = Val v"
proof -
  from assms(2) have "cs = map (\<lambda>x. Val v) cs"
    by (induction cs) auto
  then have "valid cs = map (\<lambda>x. v) cs"
    using valid_const [of v cs] by simp
  then have "valid cs \<noteq> []" and "sum_list (valid cs) = real (length cs) * v"
    and "length (valid cs) = length cs"
    using assms(1) by (simp_all add: sum_const)
  then show ?thesis using assms(1) by (simp add: nanmean_def)
qed

lemma nansum_const: "nansum (map (\<lambda>x. Val v) xs) = Val (v * real (length xs))"
  by (simp add: nansum_def valid_const sum_const)

lemma horizontal_mean_const:
  assumes "latitude b \<noteq> []" and "longitude b \<noteq> []" and "\<forall>t i j. q t i j = Val c"
  shows "horizontal_mean b q = map (\<lambda>t. (t, Val c)) (times b)"
proof -
  let ?cs = "\<lambda>t. concat (map (\<lambda>i. map (\<lambda>j. q t i j) [0..<length (longitude b)])
      [0..<length (latitude b)])"
  have "\<And>t. ?cs t \<noteq> []" using assms(1,2) by auto
  moreover have "\<And>t. \<forall>x\<in>set (?cs t). x = Val c" using assms(3) by auto
  ultimately have "\<And>t. nanmean (?cs t) = Val c" by (rule nanmean_const)
  then have "horizontal_mean b q = map (\<lambda>t. (times b ! t, Val c)) [0..<length (times b)]"
    by (simp add: horizontal_mean_def)
  also have "\<dots> = map (\<lambda>t. (t, Val c)) (map (\<lambda>i. times b ! i) [0..<length (times b)])"
    by (simp add: comp_def)
  also have "\<dots> = map (\<lambda>t. (t, Val c)) (times b)"
    by (simp only: map_nth)
  finally show ?thesis .
qed

lemma sel_depth_ascending:
  assumes "sorted (depth a)"
  shows "\<exists>b k0. sel_depth a (lo, hi) = Inr b \<and>
           depth b = filter (\<lambda>x. lo \<le> x \<and> x \<le> hi) (depth a) \<and>
           times b = times a \<and> latitude b = latitude a \<and> longitude b = longitude a \<and>
           (\<forall>t k i j. data b t k i j = data a t (k0 + k) i j)"
proof -
  let ?k0 = "length (filter (\<lambda>x. x < lo) (depth a))"
  let ?k1 = "length (filter (\<lambda>x. x \<le> hi) (depth a))"
  let ?b = "a\<lparr>depth := isel (?k0, ?k1) (depth a),
              data := (\<lambda>t k i j. data a t (?k0 + k) i j)\<rparr>"
  have "sel_depth a (lo, hi) = Inr ?b"
    using assms by (simp add: sel_depth_def slice_indexer_ascending)
  moreover have "depth ?b = filter (\<lambda>x. lo \<le> x \<and> x \<le> hi) (depth a)"
    using select_ascending [of "\<lambda>x. x" "depth a" lo hi] assms by simp
  moreover have "times ?b = times a" "latitude ?b = latitude a" "longitude ?b = longitude a"
    "\<forall>t k i j. data ?b t k i j = data a t (?k0 + k) i j"
    by simp_all
  ultimately show ?thesis by blast
qed

lemma integrate_uniform_window:
  assumes "sorted (depth a)" and "0 \<in> set (depth a)" and "100 \<in> set (depth a)"
    and "\<forall>t k i j. data a t k i j = Val v"
  shows "\<exists>b. sel_depth a (0, 100) = Inr b \<and>
           depth b = filter (\<lambda>x. 0 \<le> x \<and> x \<le> 100) (depth a) \<and>
           times b = times a \<and> latitude b = latitude a \<and> longitude b = longitude a \<and>
           (\<forall>t k i j. data b t k i j = Val v) \<and>
           (\<forall>t i j. integrate_depth b t i j = Val (v * 100)) \<and>
           (\<forall>t i j. sum_depth b t i j = Val (v * real (length (depth b))))"
proof -
  from sel_depth_ascending [OF assms(1), of 0 100] obtain b k0 where
    b: "sel_depth a (0, 100) = Inr b"
       "depth b = filter (\<lambda>x. 0 \<le> x \<and> x \<le> 100) (depth a)"
       "times b = times a" "latitude b = latitude a" "longitude b = longitude a"
       "\<forall>t k i j. data b t k i j = data a t (k0 + k) i j"
    by blast
  from b(6) assms(4) have u: "\<forall>t k i j. data b t k i j = Val v" by simp
  have ends: "depth b \<noteq> []" "hd (depth b) = 0" "last (depth b) = 100"
    unfolding b(2) by (rule window_ends [OF assms(1,2,3)]; simp)+
  have "\<And>t i j. integrate_depth b t i j = Val (v * 100)"
    using trapz_uniform [OF ends(1), of v] ends(2,3)
    by (simp add: integrate_depth_def column_uniform [OF u])
  moreover have "\<And>t i j. sum_depth b t i j = Val (v * real (length (depth b)))"
    by (simp add: sum_depth_def column_uniform [OF u] nansum_const)
  ultimately show ?thesis using b u by blast
qed

lemma all_cells_uniform:
  assumes "\<forall>t k i j. data b t k i j = Val v"
    and "times b \<noteq> []" and "depth b \<noteq> []" and "latitude b \<noteq> []" and "longitude b \<noteq> []"
  shows "nanmean (all_cells b) = Val v"
proof (rule nanmean_const)
  have "cells_of_step b 0 \<noteq> []"
    using assms(3-5) by (auto simp: cells_of_step_def)
  moreover have "0 \<in> set [0..<length (times b)]" using assms(2) by simp
  ultimately show "all_cells b \<noteq> []"
    unfolding all_cells_def concat_eq_Nil_conv by (metis imageI list.set_map)
  show "\<forall>c\<in>set (all_cells b). c = Val v"
    using assms(1) by (auto simp: all_cells_def cells_of_step_def)
qed

lemma process_npp_uniform:
  assumes "sorted (depth a)" and "0 \<in> set (depth a)" and "100 \<in> set (depth a)"
    and "\<forall>t k i j. data a t k i j = Val v"
    and "latitude a \<noteq> []" and "longitude a \<noteq> []"
    and "v \<noteq> 0" and "times a \<noteq> []"
    and "extract_and_process env file_prod ''nppv'' ''NPP'' = (out, Some (a, ds))"
  shows "snd (process_npp env) = Some (map (\<lambda>t. (t, Val (v * 100))) (times a))"
proof -
  from integrate_uniform_window [OF assms(1-4)] obtain b where
    b: "sel_depth a (0, 100) = Inr b"
       "depth b = filter (\<lambda>x. 0 \<le> x \<and> x \<le> 100) (depth a)"
       "times b = times a" "latitude b = latitude a" "longitude b = longitude a"
       "\<forall>t k i j. data b t k i j = Val v"
       "\<forall>t i j. integrate_depth b t i j = Val (v * 100)"
    by blast
  have ne: "latitude b \<noteq> []" "longitude b \<noteq> []" "times b \<noteq> []"
    using assms(5,6,8) b(3,4,5) by simp_all
  have d: "depth b \<noteq> []"
    unfolding b(2) by (rule window_ends(1) [OF assms(1,2,3)]) simp
  have m: "nanmean (all_cells b) = Val v"
    by (rule all_cells_uniform [OF b(6) ne(3) d ne(1,2)])
  have s: "horizontal_mean b (integrate_depth b) = map (\<lambda>t. (t, Val (v * 100))) (times a)"
    using horizontal_mean_const [OF ne(1,2) b(7)] b(3) by simp
  have "map (\<lambda>t. (t, Val (v * 100))) (times a) \<noteq> []" using assms(8) by simp
  then show ?thesis
    using assms(7) by (simp add: process_npp_def assms(9) b(1) m s)
qed

lemma uniform_profile_integral:
  assumes "sorted (depth a)" and "0 \<in> set (depth a)" and "100 \<in> set (depth a)"
    and "\<forall>t k i j. data a t k i j = Val v"
    and "latitude a \<noteq> []" and "longitude a \<noteq> []"
  shows "(\<exists>b. sel_depth a (0, 100) = Inr b \<and>
           depth b = filter (\<lambda>x. 0 \<le> x \<and> x \<le> 100) (depth a) \<and>
           (\<forall>t i j. integrate_depth b t i j = Val (v * 100)) \<and>
           horizontal_mean b (integrate_depth b) = map (\<lambda>t. (t, Val (v * 100))) (times a) \<and>
           npp_integrated a =
             Inr (map (\<lambda>t. (t, Val (v * real (length (depth b))))) (times a))) \<and>
         (v \<noteq> 0 \<and> times a \<noteq> [] \<and>
          extract_and_process env file_prod ''nppv'' ''NPP'' = (out, Some (a, ds)) \<longrightarrow>
            snd (process_npp env) = Some (map (\<lambda>t. (t, Val (v * 100))) (times a)))"
proof (intro conjI impI)
  from integrate_uniform_window [OF assms(1-4)] obtain b where
    b: "sel_depth a (0, 100) = Inr b"
       "depth b = filter (\<lambda>x. 0 \<le> x \<and> x \<le> 100) (depth a)"
       "times b = times a" "latitude b = latitude a" "longitude b = longitude a"
       "\<forall>t i j. integrate_depth b t i j = Val (v * 100)"
       "\<forall>t i j. sum_depth b t i j = Val (v * real (length (depth b)))"
    by blast
  have ne: "latitude b \<noteq> []" "longitude b \<noteq> []" using assms(5,6) b(4,5) by simp_all
  have "horizontal_mean b (integrate_depth b) = map (\<lambda>t. (t, Val (v * 100))) (times a)"
    using horizontal_mean_const [OF ne b(6)] b(3) by simp
  moreover have "npp_integrated a =
      Inr (map (\<lambda>t. (t, Val (v * real (length (depth b))))) (times a))"
    using horizontal_mean_const [OF ne b(7)] b(1,3) by (simp add: npp_integrated_def)
  ultimately show "\<exists>b. sel_depth a (0, 100) = Inr b \<and>
           depth b = filter (\<lambda>x. 0 \<le> x \<and> x \<le> 100) (depth a) \<and>
           (\<forall>t i j. integrate_depth b t i j = Val (v * 100)) \<and>
           horizontal_mean b (integrate_depth b) = map (\<lambda>t. (t, Val (v * 100))) (times a) \<and>
           npp_integrated a =
             Inr (map (\<lambda>t. (t, Val (v * real (length (depth b))))) (times a))"
    using b(1,2,6) by blast
next
  assume "v \<noteq> 0 \<and> times a \<noteq> [] \<and>
          extract_and_process env file_prod ''nppv'' ''NPP'' = (out, Some (a, ds))"
  then have h: "v \<noteq> 0" "times a \<noteq> []"
    "extract_and_process env file_prod ''nppv'' ''NPP'' = (out, Some (a, ds))"
    by blast+
  show "snd (process_npp env) = Some (map (\<lambda>t. (t, Val (v * 100))) (times a))"
    by (rule process_npp_uniform [OF assms h])
qed

lemma trapz_values:
  assumes "length ys = length xs"
  shows "trapz xs (map Val ys) =
     Val (\<Sum>k<length xs - 1. (xs ! Suc k - xs ! k) * (ys ! Suc k + ys ! k) / 2)"
  using assms
proof (induction xs arbitrary: ys rule: induct_list012)
  case 1
  then show ?case by simp
next
  case (2 x)
  then show ?case by (cases ys) simp_all
next
  case (3 x0 x1 xs)
  then obtain y0 y1 ys' where ys: "ys = y0 # y1 # ys'"
    by (cases ys; cases "tl ys") auto
  define f where "f k = ((x0 # x1 # xs) ! Suc k - (x0 # x1 # xs) ! k) *
      ((y0 # y1 # ys') ! Suc k + (y0 # y1 # ys') ! k) / 2" for k
  have f0: "f 0 = (x1 - x0) * (y1 + y0) / 2" by (simp add: f_def)
  have fS: "\<And>k. f (Suc k) = ((x1 # xs) ! Suc k - (x1 # xs) ! k) *
      ((y1 # ys') ! Suc k + (y1 # ys') ! k) / 2" by (simp add: f_def)
  from 3 ys have "length (y1 # ys') = length (x1 # xs)" by simp
  from "3.IH"(2) [OF this]
  have "trapz (x1 # xs) (map Val (y1 # ys')) = Val (\<Sum>k<length xs. f (Suc k))"
    by (simp add: fS)
  then have "trapz (x0 # x1 # xs) (map Val (y0 # y1 # ys')) =
      Val (f 0 + (\<Sum>k<length xs. f (Suc k)))"
    by (simp add: f0)
  also have "f 0 + (\<Sum>k<length xs. f (Suc k)) = (\<Sum>k<Suc (length xs). f k)"
    by (simp only: sum.lessThan_Suc_shift)
  finally show ?case by (simp add: ys f_def)
qed

lemma valid_Val: "valid (map Val zs) = zs"
  by (induction zs) auto

lemma column_values:
  assumes "\<forall>k<length (depth c). data c t k i j = Val (y k)"
  shows "column c t i j = map Val (map y [0..<length (depth c)])"
  using assms by (simp add: column_def)

lemma integrate_values:
  assumes "\<forall>k<length (depth c). data c t k i j = Val (y k)"
  shows "integrate_depth c t i j =
     Val (\<Sum>k<length (depth c) - 1. (depth c ! Suc k - depth c ! k) * (y (Suc k) + y k) / 2)"
proof -
  have "trapz (depth c) (map Val (map y [0..<length (depth c)])) =
     Val (\<Sum>k<length (depth c) - 1. (depth c ! Suc k - depth c ! k) *
        (map y [0..<length (depth c)] ! Suc k + map y [0..<length (depth c)] ! k) / 2)"
    by (rule trapz_values) simp
  also have "(\<Sum>k<length (depth c) - 1. (depth c ! Suc k - depth c ! k) *
        (map y [0..<length (depth c)] ! Suc k + map y [0..<length (depth c)] ! k) / 2) =
     (\<Sum>k<length (depth c) - 1. (depth c ! Suc k - depth c ! k) * (y (Suc k) + y k) / 2)"
    by (rule sum.cong) auto
  finally show ?thesis
    by (simp only: integrate_depth_def column_values [OF assms])
qed

lemma sum_values:
  assumes "\<forall>k<length (depth c). data c t k i j = Val (y k)"
  shows "sum_depth c t i j = Val (\<Sum>k<length (depth c). y k)"
proof -
  have "sum_list (map y [0..<length (depth c)]) = (\<Sum>k<length (depth c). y k)"
    by (simp add: interv_sum_list_conv_sum_set_nat atLeast0LessThan)
  then show ?thesis
    by (simp only: sum_depth_def column_values [OF assms] nansum_def valid_Val)
qed

lemma fadd_NaN_right: "fadd x NaN = NaN"
  by (cases x) simp_all

lemma fmul_NaN_right: "fmul x NaN = NaN"
  by (cases x) simp_all

lemma trapz_missing:
  assumes "length ys = length xs" and "2 \<le> length xs" and "k < length xs" and "ys ! k = NaN"
  shows "trapz xs ys = NaN"
  using assms
proof (induction xs arbitrary: ys k rule: induct_list012)
  case 1
  then show ?case by simp
next
  case (2 x)
  then show ?case by simp
next
  case (3 x0 x1 xs)
  then obtain y0 y1 ys' where ys: "ys = y0 # y1 # ys'"
    by (cases ys; cases "tl ys") auto
  show ?case
  proof (cases "k \<le> 1")
    case True
    then have "k = 0 \<or> k = 1" by auto
    then have "y0 = NaN \<or> y1 = NaN" using "3.prems"(4) ys by auto
    then have "fadd y1 y0 = NaN" by (auto simp: fadd_NaN_right)
    then show ?thesis by (simp add: ys fmul_NaN_right)
  next
    case False
    then obtain k' where k: "k = Suc k'" "1 \<le> k'" by (cases k) auto
    have "trapz (x1 # xs) (y1 # ys') = NaN"
    proof (rule "3.IH"(2))
      show "length (y1 # ys') = length (x1 # xs)" using "3.prems"(1) ys by simp
      show "k' < length (x1 # xs)" using "3.prems"(3) k by simp
      then show "2 \<le> length (x1 # xs)" using k(2) by simp
      show "(y1 # ys') ! k' = NaN" using "3.prems"(4) ys k by simp
    qed
    then show ?thesis by (simp add: ys fadd_NaN_right)
  qed
qed

lemma integrate_missing:
  assumes "k < length (depth c)" and "2 \<le> length (depth c)" and "data c t k i j = NaN"
  shows "integrate_depth c t i j = NaN"
  unfolding integrate_depth_def
proof (rule trapz_missing [OF _ assms(2) assms(1)])
  show "length (column c t i j) = length (depth c)" by (simp add: column_def)
  show "column c t i j ! k = NaN" using assms(1,3) by (simp add: column_def)
qed

lemma process_npp_proxy:
  assumes "extract_and_process env file_prod ''nppv'' ''NPP'' = (out, Some (npp_subset, ds_prod))"
    and "sel_depth npp_subset (0, 100) = Inr npp_100m"
    and "nanmean (all_cells npp_100m) = Val 0 \<or> isnan (nanmean (all_cells npp_100m))"
    and "extract_and_process env file_bio ''chl'' ''Chlorophyll'' =
           (out2, Some (chl_subset, ds_bio))"
    and "sel_depth chl_subset (0, 100) = Inr chl_100m"
    and "horizontal_mean chl_100m (integrate_depth chl_100m) \<noteq> []"
  shows "process_npp env =
     (out @ [NPP_all_zeros] @ out2 @ [Using_chlorophyll_proxy] @
      [Integrated_NPP_calculated
         (nanmean (map snd (horizontal_mean chl_100m (integrate_depth chl_100m))))
         (nanmin (map snd (horizontal_mean chl_100m (integrate_depth chl_100m))))
         (nanmax (map snd (horizontal_mean chl_100m (integrate_depth chl_100m))))],
      Some (horizontal_mean chl_100m (integrate_depth chl_100m)))"
  using assms(3,6) by (auto simp: process_npp_def assms(1,2,4,5) Let_def)

lemma process_npp_no_proxy:
  assumes "extract_and_process env file_prod ''nppv'' ''NPP'' = (out, Some (npp_subset, ds_prod))"
    and "sel_depth npp_subset (0, 100) = Inr npp_100m"
    and "nanmean (all_cells npp_100m) = Val 0 \<or> isnan (nanmean (all_cells npp_100m))"
    and "extract_and_process env file_bio ''chl'' ''Chlorophyll'' = (out2, None)"
    and "horizontal_mean npp_100m (integrate_depth npp_100m) \<noteq> []"
  shows "process_npp env =
     (out @ [NPP_all_zeros] @ out2 @
      [Integrated_NPP_calculated
         (nanmean (map snd (horizontal_mean npp_100m (integrate_depth npp_100m))))
         (nanmin (map snd (horizontal_mean npp_100m (integrate_depth npp_100m))))
         (nanmax (map snd (horizontal_mean npp_100m (integrate_depth npp_100m))))],
      Some (horizontal_mean npp_100m (integrate_depth npp_100m)))"
  using assms(3,5) by (auto simp: process_npp_def assms(1,2,4) Let_def)

lemma process_npp_own:
  assumes "extract_and_process env file_prod ''nppv'' ''NPP'' = (out, Some (npp_subset, ds_prod))"
    and "sel_depth npp_subset (0, 100) = Inr npp_100m"
    and "\<not> (nanmean (all_cells npp_100m) = Val 0 \<or> isnan (nanmean (all_cells npp_100m)))"
    and "horizontal_mean npp_100m (integrate_depth npp_100m) \<noteq> []"
  shows "process_npp env =
     (out @
      [Integrated_NPP_calculated
         (nanmean (map snd (horizontal_mean npp_100m (integrate_depth npp_100m))))
         (nanmin (map snd (horizontal_mean npp_100m (integrate_depth npp_100m))))
         (nanmax (map snd (horizontal_mean npp_100m (integrate_depth npp_100m))))],
      Some (horizontal_mean npp_100m (integrate_depth npp_100m)))"
  using assms(3,4) by (auto simp: process_npp_def assms(1,2) Let_def)

lemma point_subset:
  assumes "latitude a = [17]" and "longitude a = [73]"
  shows "\<exists>sub. sel_latitude_longitude a lat_slice lon_slice = Inr sub \<and>
           depth sub = depth a \<and> times sub = times a \<and>
           latitude sub = [17] \<and> longitude sub = [73] \<and>
           (\<forall>t k i j. data sub t k i j = data a t k i j)"
  by (rule exI [of _ "a\<lparr>latitude := [17], longitude := [73],
        data := (\<lambda>t k i j. data a t k (0 + i) (0 + j))\<rparr>"])
    (simp add: ex_point_sel [OF assms])

lemma extract_uniform_point:
  assumes "path_exists env (path_join data_folder_bgc fname)"
    and "open_dataset env (path_join data_folder_bgc fname) = Inr ds"
    and "find_variable var_name ds = Some (a, [])"
    and "latitude a = [17]" and "longitude a = [73]"
    and "times a \<noteq> []" and "depth a \<noteq> []"
    and "\<forall>t k i j. data a t k i j = Val v"
  shows "\<exists>sub n. extract_and_process env fname var_name label =
             ([Loaded_successfully label n], Some (sub, ds)) \<and>
           depth sub = depth a \<and> times sub = times a \<and>
           latitude sub = [17] \<and> longitude sub = [73] \<and>
           (\<forall>t k i j. data sub t k i j = Val v)"
proof -
  from point_subset [OF assms(4,5)] obtain sub where
    sub: "sel_latitude_longitude a lat_slice lon_slice = Inr sub"
      "depth sub = depth a" "times sub = times a" "latitude sub = [17]" "longitude sub = [73]"
      "\<forall>t k i j. data sub t k i j = data a t k i j"
    by blast
  have u: "\<forall>t k i j. data sub t k i j = Val v" using sub(6) assms(8) by simp
  have ne: "cells_of_step sub 0 \<noteq> []"
    using assms(7) sub(2,4,5) by (auto simp: cells_of_step_def)
  have "cells_of_step sub 0 = map (\<lambda>x. Val v) (cells_of_step sub 0)"
    using u by (simp add: cells_of_step_def comp_def map_concat)
  then have "valid (cells_of_step sub 0) = map (\<lambda>x. v) (cells_of_step sub 0)"
    using valid_const [of v "cells_of_step sub 0"] by simp
  then have pos: "0 < valid_count (cells_of_step sub 0)"
    using ne by (simp add: valid_count_def)
  have t: "times sub \<noteq> []" using assms(6) sub(3) by simp
  have "extract_and_process env fname var_name label =
      ([] @ [Loaded_successfully label (valid_count (cells_of_step sub 0))], Some (sub, ds))"
    by (rule extract_loaded [OF assms(1,2,3) sub(1) t refl pos])
  then show ?thesis using sub(2-5) u by auto
qed

lemma uniform_window_series:
  assumes "sorted (depth a)" and "0 \<in> set (depth a)" and "100 \<in> set (depth a)"
    and "\<forall>t k i j. data a t k i j = Val v"
    and "latitude a \<noteq> []" and "longitude a \<noteq> []" and "times a \<noteq> []"
  shows "\<exists>b. sel_depth a (0, 100) = Inr b \<and> nanmean (all_cells b) = Val v \<and>
           horizontal_mean b (integrate_depth b) = map (\<lambda>t. (t, Val (v * 100))) (times a)"
proof -
  from integrate_uniform_window [OF assms(1-4)] obtain b where
    b: "sel_depth a (0, 100) = Inr b"
       "depth b = filter (\<lambda>x. 0 \<le> x \<and> x \<le> 100) (depth a)"
       "times b = times a" "latitude b = latitude a" "longitude b = longitude a"
       "\<forall>t k i j. data b t k i j = Val v"
       "\<forall>t i j. integrate_depth b t i j = Val (v * 100)"
    by blast
  have ne: "latitude b \<noteq> []" "longitude b \<noteq> []" "times b \<noteq> []"
    using assms(5,6,7) b(3,4,5) by simp_all
  have d: "depth b \<noteq> []"
    unfolding b(2) by (rule window_ends(1) [OF assms(1,2,3)]) simp
  have m: "nanmean (all_cells b) = Val v"
    by (rule all_cells_uniform [OF b(6) ne(3) d ne(1,2)])
  have s: "horizontal_mean b (integrate_depth b) = map (\<lambda>t. (t, Val (v * 100))) (times a)"
    using horizontal_mean_const [OF ne(1,2) b(7)] b(3) by simp
  from b(1) m s show ?thesis by blast
qed

text \<open>
  Claim C7, amended. In dec27\_code.py the production array is restricted to the depth
  levels from 0 to 100 and integrated over depth with the trapezoidal rule: at a grid
  point whose column has the values \<open>y\<^sub>0, y\<^sub>1, \<dots>\<close> at the depth levels \<open>x\<^sub>0, x\<^sub>1, \<dots>\<close>
  the integral is the sum of \<open>(x\<^bsub>k+1\<^esub> - x\<^sub>k) * (y\<^bsub>k+1\<^esub> + y\<^sub>k) / 2\<close> over the
  consecutive pairs of levels, and it is missing when any value of a column of two or
  more levels is missing. For an array that equals \<open>v\<close> everywhere, on a depth axis in
  ascending order that has the levels 0 and 100, the integral is \<open>v * 100\<close> at every
  time step and grid point, and so is its mean over the grid points; when \<open>v\<close> is not
  zero this is the integrated production of the script. The array that is integrated is
  the restricted production array, unless its overall mean is zero or missing and
  chlorophyll can be extracted: then it is the chlorophyll array restricted to the same
  levels. In bio\_3d.py the restricted array is summed over the depth levels instead,
  which gives the plain sum of the values of the column, \<open>v\<close> times the number of levels
  from 0 to 100 for the uniform array.
\<close>

theorem depth_integration:
  "(sorted (depth a) \<and> 0 \<in> set (depth a) \<and> 100 \<in> set (depth a) \<and>
    (\<forall>t k i j. data a t k i j = Val v) \<and> latitude a \<noteq> [] \<and> longitude a \<noteq> [] \<longrightarrow>
   (\<exists>b. sel_depth a (0, 100) = Inr b \<and>
              depth b = filter (\<lambda>x. 0 \<le> x \<and> x \<le> 100) (depth a) \<and>
              (\<forall>t i j. integrate_depth b t i j = Val (v * 100)) \<and>
              horizontal_mean b (integrate_depth b) = map (\<lambda>t. (t, Val (v * 100))) (times a) \<and>
              npp_integrated a =
                Inr (map (\<lambda>t. (t, Val (v * real (length (depth b))))) (times a))) \<and>
            (v \<noteq> 0 \<and> times a \<noteq> [] \<and>
             extract_and_process env file_prod ''nppv'' ''NPP'' = (out, Some (a, ds)) \<longrightarrow>
               snd (process_npp env) = Some (map (\<lambda>t. (t, Val (v * 100))) (times a)))) \<and>
   ((\<forall>k<length (depth c). data c t k i j = Val (y k)) \<longrightarrow>
      integrate_depth c t i j =
        Val (\<Sum>k<length (depth c) - 1.
               (depth c ! Suc k - depth c ! k) * (y (Suc k) + y k) / 2) \<and>
      sum_depth c t i j = Val (\<Sum>k<length (depth c). y k)) \<and>
   (k < length (depth c) \<and> 2 \<le> length (depth c) \<and> data c t k i j = NaN \<longrightarrow>
      integrate_depth c t i j = NaN) \<and>
   (extract_and_process env file_prod ''nppv'' ''NPP'' = (out, Some (npp_subset, ds_prod)) \<and>
    sel_depth npp_subset (0, 100) = Inr npp_100m \<and>
    (nanmean (all_cells npp_100m) = Val 0 \<or> isnan (nanmean (all_cells npp_100m))) \<and>
    extract_and_process env file_bio ''chl'' ''Chlorophyll'' =
      (out2, Some (chl_subset, ds_bio)) \<and>
    sel_depth chl_subset (0, 100) = Inr chl_100m \<and>
    horizontal_mean chl_100m (integrate_depth chl_100m) \<noteq> [] \<longrightarrow>
      process_npp env =
        (out @ [NPP_all_zeros] @ out2 @ [Using_chlorophyll_proxy] @
         [Integrated_NPP_calculated
            (nanmean (map snd (horizontal_mean chl_100m (integrate_depth chl_100m))))
            (nanmin (map snd (horizontal_mean chl_100m (integrate_depth chl_100m))))
            (nanmax (map snd (horizontal_mean chl_100m (integrate_depth chl_100m))))],
         Some (horizontal_mean chl_100m (integrate_depth chl_100m)))) \<and>
   (extract_and_process env file_prod ''nppv'' ''NPP'' = (out, Some (npp_subset, ds_prod)) \<and>
    sel_depth npp_subset (0, 100) = Inr npp_100m \<and>
    (nanmean (all_cells npp_100m) = Val 0 \<or> isnan (nanmean (all_cells npp_100m))) \<and>
    extract_and_process env file_bio ''chl'' ''Chlorophyll'' = (out2, None) \<and>
    horizontal_mean npp_100m (integrate_depth npp_100m) \<noteq> [] \<longrightarrow>
      process_npp env =
        (out @ [NPP_all_zeros] @ out2 @
         [Integrated_NPP_calculated
            (nanmean (map snd (horizontal_mean npp_100m (integrate_depth npp_100m))))
            (nanmin (map snd (horizontal_mean npp_100m (integrate_depth npp_100m))))
            (nanmax (map snd (horizontal_mean npp_100m (integrate_depth npp_100m))))],
         Some (horizontal_mean npp_100m (integrate_depth npp_100m)))) \<and>
   (extract_and_process env file_prod ''nppv'' ''NPP'' = (out, Some (npp_subset, ds_prod)) \<and>
    sel_depth npp_subset (0, 100) = Inr npp_100m \<and>
    \<not> (nanmean (all_cells npp_100m) = Val 0 \<or> isnan (nanmean (all_cells npp_100m))) \<and>
    horizontal_mean npp_100m (integrate_depth npp_100m) \<noteq> [] \<longrightarrow>
      process_npp env =
        (out @
         [Integrated_NPP_calculated
            (nanmean (map snd (horizontal_mean npp_100m (integrate_depth npp_100m))))
            (nanmin (map snd (horizontal_mean npp_100m (integrate_depth npp_100m))))
            (nanmax (map snd (horizontal_mean npp_100m (integrate_depth npp_100m))))],
         Some (horizontal_mean npp_100m (integrate_depth npp_100m))))"
proof (intro conjI)
  show "sorted (depth a) \<and> 0 \<in> set (depth a) \<and> 100 \<in> set (depth a) \<and>
    (\<forall>t k i j. data a t k i j = Val v) \<and> latitude a \<noteq> [] \<and> longitude a \<noteq> [] \<longrightarrow>
   (\<exists>b. sel_depth a (0, 100) = Inr b \<and>
              depth b = filter (\<lambda>x. 0 \<le> x \<and> x \<le> 100) (depth a) \<and>
              (\<forall>t i j. integrate_depth b t i j = Val (v * 100)) \<and>
              horizontal_mean b (integrate_depth b) = map (\<lambda>t. (t, Val (v * 100))) (times a) \<and>
              npp_integrated a =
                Inr (map (\<lambda>t. (t, Val (v * real (length (depth b))))) (times a))) \<and>
            (v \<noteq> 0 \<and> times a \<noteq> [] \<and>
             extract_and_process env file_prod ''nppv'' ''NPP'' = (out, Some (a, ds)) \<longrightarrow>
               snd (process_npp env) = Some (map (\<lambda>t. (t, Val (v * 100))) (times a)))"
  proof
    assume "sorted (depth a) \<and> 0 \<in> set (depth a) \<and> 100 \<in> set (depth a) \<and>
      (\<forall>t k i j. data a t k i j = Val v) \<and> latitude a \<noteq> [] \<and> longitude a \<noteq> []"
    then have h: "sorted (depth a)" "0 \<in> set (depth a)" "100 \<in> set (depth a)"
      "\<forall>t k i j. data a t k i j = Val v" "latitude a \<noteq> []" "longitude a \<noteq> []"
      by blast+
    show "(\<exists>b. sel_depth a (0, 100) = Inr b \<and>
           depth b = filter (\<lambda>x. 0 \<le> x \<and> x \<le> 100) (depth a) \<and>
           (\<forall>t i j. integrate_depth b t i j = Val (v * 100)) \<and>
           horizontal_mean b (integrate_depth b) = map (\<lambda>t. (t, Val (v * 100))) (times a) \<and>
           npp_integrated a =
             Inr (map (\<lambda>t. (t, Val (v * real (length (depth b))))) (times a))) \<and>
         (v \<noteq> 0 \<and> times a \<noteq> [] \<and>
          extract_and_process env file_prod ''nppv'' ''NPP'' = (out, Some (a, ds)) \<longrightarrow>
            snd (process_npp env) = Some (map (\<lambda>t. (t, Val (v * 100))) (times a)))"
      by (rule uniform_profile_integral [OF h])
  qed
next
  show "(\<forall>k<length (depth c). data c t k i j = Val (y k)) \<longrightarrow>
      integrate_depth c t i j =
        Val (\<Sum>k<length (depth c) - 1.
               (depth c ! Suc k - depth c ! k) * (y (Suc k) + y k) / 2) \<and>
      sum_depth c t i j = Val (\<Sum>k<length (depth c). y k)"
    using integrate_values [of c t i j y] sum_values [of c t i j y] by blast
next
  show "k < length (depth c) \<and> 2 \<le> length (depth c) \<and> data c t k i j = NaN \<longrightarrow>
      integrate_depth c t i j = NaN"
    using integrate_missing [of k c t i j] by blast
next
  show "extract_and_process env file_prod ''nppv'' ''NPP'' = (out, Some (npp_subset, ds_prod)) \<and>
    sel_depth npp_subset (0, 100) = Inr npp_100m \<and>
    (nanmean (all_cells npp_100m) = Val 0 \<or> isnan (nanmean (all_cells npp_100m))) \<and>
    extract_and_process env file_bio ''chl'' ''Chlorophyll'' =
      (out2, Some (chl_subset, ds_bio)) \<and>
    sel_depth chl_subset (0, 100) = Inr chl_100m \<and>
    horizontal_mean chl_100m (integrate_depth chl_100m) \<noteq> [] \<longrightarrow>
      process_npp env =
        (out @ [NPP_all_zeros] @ out2 @ [Using_chlorophyll_proxy] @
         [Integrated_NPP_calculated
            (nanmean (map snd (horizontal_mean chl_100m (integrate_depth chl_100m))))
            (nanmin (map snd (horizontal_mean chl_100m (integrate_depth chl_100m))))
            (nanmax (map snd (horizontal_mean chl_100m (integrate_depth chl_100m))))],
         Some (horizontal_mean chl_100m (integrate_depth chl_100m)))"
  proof
    assume "extract_and_process env file_prod ''nppv'' ''NPP'' = (out, Some (npp_subset, ds_prod)) \<and>
      sel_depth npp_subset (0, 100) = Inr npp_100m \<and>
      (nanmean (all_cells npp_100m) = Val 0 \<or> isnan (nanmean (all_cells npp_100m))) \<and>
      extract_and_process env file_bio ''chl'' ''Chlorophyll'' =
        (out2, Some (chl_subset, ds_bio)) \<and>
      sel_depth chl_subset (0, 100) = Inr chl_100m \<and>
      horizontal_mean chl_100m (integrate_depth chl_100m) \<noteq> []"
    then show "process_npp env =
        (out @ [NPP_all_zeros] @ out2 @ [Using_chlorophyll_proxy] @
         [Integrated_NPP_calculated
            (nanmean (map snd (horizontal_mean chl_100m (integrate_depth chl_100m))))
            (nanmin (map snd (horizontal_mean chl_100m (integrate_depth chl_100m))))
            (nanmax (map snd (horizontal_mean chl_100m (integrate_depth chl_100m))))],
         Some (horizontal_mean chl_100m (integrate_depth chl_100m)))"
      by (intro process_npp_proxy) blast+
  qed
next
  show "extract_and_process env file_prod ''nppv'' ''NPP'' = (out, Some (npp_subset, ds_prod)) \<and>
    sel_depth npp_subset (0, 100) = Inr npp_100m \<and>
    (nanmean (all_cells npp_100m) = Val 0 \<or> isnan (nanmean (all_cells npp_100m))) \<and>
    extract_and_process env file_bio ''chl'' ''Chlorophyll'' = (out2, None) \<and>
    horizontal_mean npp_100m (integrate_depth npp_100m) \<noteq> [] \<longrightarrow>
      process_npp env =
        (out @ [NPP_all_zeros] @ out2 @
         [Integrated_NPP_calculated
            (nanmean (map snd (horizontal_mean npp_100m (integrate_depth npp_100m))))
            (nanmin (map snd (horizontal_mean npp_100m (integrate_depth npp_100m))))
            (nanmax (map snd (horizontal_mean npp_100m (integrate_depth npp_100m))))],
         Some (horizontal_mean npp_100m (integrate_depth npp_100m)))"
  proof
    assume "extract_and_process env file_prod ''nppv'' ''NPP'' = (out, Some (npp_subset, ds_prod)) \<and>
      sel_depth npp_subset (0, 100) = Inr npp_100m \<and>
      (nanmean (all_cells npp_100m) = Val 0 \<or> isnan (nanmean (all_cells npp_100m))) \<and>
      extract_and_process env file_bio ''chl'' ''Chlorophyll'' = (out2, None) \<and>
      horizontal_mean npp_100m (integrate_depth npp_100m) \<noteq> []"
    then show "process_npp env =
        (out @ [NPP_all_zeros] @ out2 @
         [Integrated_NPP_calculated
            (nanmean (map snd (horizontal_mean npp_100m (integrate_depth npp_100m))))
            (nanmin (map snd (horizontal_mean npp_100m (integrate_depth npp_100m))))
            (nanmax (map snd (horizontal_mean npp_100m (integrate_depth npp_100m))))],
         Some (horizontal_mean npp_100m (integrate_depth npp_100m)))"
      by (intro process_npp_no_proxy) blast+
  qed
next
  show "extract_and_process env file_prod ''nppv'' ''NPP'' = (out, Some (npp_subset, ds_prod)) \<and>
    sel_depth npp_subset (0, 100) = Inr npp_100m \<and>
    \<not> (nanmean (all_cells npp_100m) = Val 0 \<or> isnan (nanmean (all_cells npp_100m))) \<and>
    horizontal_mean npp_100m (integrate_depth npp_100m) \<noteq> [] \<longrightarrow>
      process_npp env =
        (out @
         [Integrated_NPP_calculated
            (nanmean (map snd (horizontal_mean npp_100m (integrate_depth npp_100m))))
            (nanmin (map snd (horizontal_mean npp_100m (integrate_depth npp_100m))))
            (nanmax (map snd (horizontal_mean npp_100m (integrate_depth npp_100m))))],
         Some (horizontal_mean npp_100m (integrate_depth npp_100m)))"
  proof
    assume "extract_and_process env file_prod ''nppv'' ''NPP'' = (out, Some (npp_subset, ds_prod)) \<and>
      sel_depth npp_subset (0, 100) = Inr npp_100m \<and>
      \<not> (nanmean (all_cells npp_100m) = Val 0 \<or> isnan (nanmean (all_cells npp_100m))) \<and>
      horizontal_mean npp_100m (integrate_depth npp_100m) \<noteq> []"
    then show "process_npp env =
        (out @
         [Integrated_NPP_calculated
            (nanmean (map snd (horizontal_mean npp_100m (integrate_depth npp_100m))))
            (nanmin (map snd (horizontal_mean npp_100m (integrate_depth npp_100m))))
            (nanmax (map snd (horizontal_mean npp_100m (integrate_depth npp_100m))))],
         Some (horizontal_mean npp_100m (integrate_depth npp_100m)))"
      by (intro process_npp_own) blast+
  qed
qed

lemma ex_uniform_column:
  "sorted (depth uniform_column)" "0 \<in> set (depth uniform_column)"
  "100 \<in> set (depth uniform_column)" "\<forall>t k i j. data uniform_column t k i j = Val 1"
  "latitude uniform_column \<noteq> []" "longitude uniform_column \<noteq> []"
  by (simp_all add: uniform_column_def)

lemma ex_uniform_window:
  "filter (\<lambda>x. 0 \<le> x \<and> x \<le> 100) (depth uniform_column) = [0, 50, 100]"
  by (simp add: uniform_column_def)

lemma ex_uniform_times: "times uniform_column = [(2025, 10, 5)]"
  by (simp add: uniform_column_def)

lemma ex_uniform_exists: "path_exists uniform_folder (path_join data_folder_bgc file_prod)"
  unfolding ex_land_path by (simp add: uniform_folder_def)

lemma ex_uniform_open:
  "open_dataset uniform_folder (path_join data_folder_bgc file_prod) =
     Inr [(''nppv'', uniform_column)]"
  by (simp add: uniform_folder_def)

lemma ex_uniform_nppv:
  "find_variable ''nppv'' [(''nppv'', uniform_column)] = Some (uniform_column, [])"
  by (simp add: find_variable_def)

lemma ex_uniform_sel:
  "sel_latitude_longitude uniform_column lat_slice lon_slice =
     Inr (uniform_column\<lparr>latitude := [17], longitude := [73],
            data := (\<lambda>t k i j. data uniform_column t k (0 + i) (0 + j))\<rparr>)"
  by (rule ex_point_sel) (simp_all add: uniform_column_def)

lemma ex_uniform_extract:
  "extract_and_process uniform_folder file_prod ''nppv'' ''NPP'' =
     ([] @ [Loaded_successfully ''NPP'' 3],
      Some (uniform_column\<lparr>latitude := [17], longitude := [73],
              data := (\<lambda>t k i j. data uniform_column t k (0 + i) (0 + j))\<rparr>,
            [(''nppv'', uniform_column)]))"
proof (rule extract_loaded [OF ex_uniform_exists ex_uniform_open ex_uniform_nppv ex_uniform_sel])
  show "times (uniform_column\<lparr>latitude := [17], longitude := [73],
            data := (\<lambda>t k i j. data uniform_column t k (0 + i) (0 + j))\<rparr>) \<noteq> []"
    by (simp add: uniform_column_def)
  show "valid_count (cells_of_step (uniform_column\<lparr>latitude := [17], longitude := [73],
            data := (\<lambda>t k i j. data uniform_column t k (0 + i) (0 + j))\<rparr>) 0) = 3"
    by (simp add: valid_count_def cells_of_step_def uniform_column_def)
  show "(0::nat) < 3" by simp
qed

lemma ex_uniform_subset:
  "sorted (depth (uniform_column\<lparr>latitude := [17], longitude := [73],
            data := (\<lambda>t k i j. data uniform_column t k (0 + i) (0 + j))\<rparr>))"
  "0 \<in> set (depth (uniform_column\<lparr>latitude := [17], longitude := [73],
            data := (\<lambda>t k i j. data uniform_column t k (0 + i) (0 + j))\<rparr>))"
  "100 \<in> set (depth (uniform_column\<lparr>latitude := [17], longitude := [73],
            data := (\<lambda>t k i j. data uniform_column t k (0 + i) (0 + j))\<rparr>))"
  "\<forall>t k i j. data (uniform_column\<lparr>latitude := [17], longitude := [73],
            data := (\<lambda>t k i j. data uniform_column t k (0 + i) (0 + j))\<rparr>) t k i j = Val 1"
  "latitude (uniform_column\<lparr>latitude := [17], longitude := [73],
            data := (\<lambda>t k i j. data uniform_column t k (0 + i) (0 + j))\<rparr>) \<noteq> []"
  "longitude (uniform_column\<lparr>latitude := [17], longitude := [73],
            data := (\<lambda>t k i j. data uniform_column t k (0 + i) (0 + j))\<rparr>) \<noteq> []"
  by (simp_all add: uniform_column_def)

lemma ex_uniform_subset_times:
  "times (uniform_column\<lparr>latitude := [17], longitude := [73],
            data := (\<lambda>t k i j. data uniform_column t k (0 + i) (0 + j))\<rparr>) = [(2025, 10, 5)]"
  by (simp add: uniform_column_def)

lemma ex_bio_path:
  "path_join data_folder_bgc file_bio = ''biogeochem_data/konkan_bgc_chl_phyc.nc''"
  by (simp add: path_join_def data_folder_bgc_def file_bio_def)

lemma ex_proxy_folder:
  "path_exists proxy_folder p"
  "open_dataset proxy_folder (path_join data_folder_bgc file_prod) = Inr [(''nppv'', zero_column)]"
  "open_dataset proxy_folder (path_join data_folder_bgc file_bio) = Inr [(''chl'', uniform_column)]"
  unfolding ex_land_path ex_bio_path by (simp_all add: proxy_folder_def)

lemma ex_zero_folder:
  "path_exists zero_folder (path_join data_folder_bgc file_prod)"
  "\<not> path_exists zero_folder (path_join data_folder_bgc file_bio)"
  "open_dataset zero_folder (path_join data_folder_bgc file_prod) = Inr [(''nppv'', zero_column)]"
  unfolding ex_land_path ex_bio_path by (simp_all add: zero_folder_def)

lemma ex_zero_no_chl:
  "extract_and_process zero_folder file_bio ''chl'' ''Chlorophyll'' = ([Missing_file file_bio], None)"
  using ex_zero_folder(2) by (simp add: extract_and_process_def Let_def)

lemma ex_find_single: "find_variable v [(v, a)] = Some (a, [])"
  by (simp add: find_variable_def)

lemma ex_zero_column:
  "latitude zero_column = [17]" "longitude zero_column = [73]"
  "times zero_column \<noteq> []" "depth zero_column \<noteq> []"
  "\<forall>t k i j. data zero_column t k i j = Val 0"
  "depth zero_column = [0, 50, 100]" "times zero_column = [(2025, 10, 5)]"
  by (simp_all add: zero_column_def)

lemma ex_uniform_point:
  "latitude uniform_column = [17]" "longitude uniform_column = [73]"
  "times uniform_column \<noteq> []" "depth uniform_column \<noteq> []"
  "depth uniform_column = [0, 50, 100]"
  by (simp_all add: uniform_column_def)

lemma ex_point_series:
  assumes "depth sub = [0, 50, 100]" and "times sub = [(2025, 10, 5)]"
    and "latitude sub = [17]" and "longitude sub = [73]"
    and "\<forall>t k i j. data sub t k i j = Val v"
  shows "\<exists>b. sel_depth sub (0, 100) = Inr b \<and> nanmean (all_cells b) = Val v \<and>
           horizontal_mean b (integrate_depth b) = [((2025, 10, 5), Val (v * 100))]"
proof -
  have "\<exists>b. sel_depth sub (0, 100) = Inr b \<and> nanmean (all_cells b) = Val v \<and>
           horizontal_mean b (integrate_depth b) = map (\<lambda>t. (t, Val (v * 100))) (times sub)"
    by (rule uniform_window_series) (simp_all add: assms)
  then show ?thesis by (simp add: assms(2))
qed

lemma ex_ramp:
  "\<forall>k<length (depth ramp_column). data ramp_column 0 k 0 0 = Val (if k = 0 then 1 else 3)"
  by (simp add: ramp_column_def)

lemma ex_broken:
  "1 < length (depth broken_column)" "2 \<le> length (depth broken_column)"
  "data broken_column 0 1 0 0 = NaN"
  by (simp_all add: broken_column_def)

text \<open>
  The array that equals 1 at the depths 0, 50 and 100, in both scripts; a column that
  rises from 1 to 3 and one whose deeper value is missing; and three folders: one whose
  productivity is zero and whose chlorophyll is 1, one whose productivity is zero and
  that has no chlorophyll, and one whose productivity is 1.
\<close>

theorem depth_integration_witness:
  "(\<exists>b. sel_depth uniform_column (0, 100) = Inr b \<and>
       depth b = [0, 50, 100] \<and>
       (\<forall>t i j. integrate_depth b t i j = Val 100) \<and>
       horizontal_mean b (integrate_depth b) = [((2025, 10, 5), Val 100)] \<and>
       npp_integrated uniform_column = Inr [((2025, 10, 5), Val 3)]) \<and>
   snd (process_npp uniform_folder) = Some [((2025, 10, 5), Val 100)] \<and>
   integrate_depth ramp_column 0 0 0 = Val 200 \<and>
   sum_depth ramp_column 0 0 0 = Val 4 \<and>
   integrate_depth broken_column 0 0 0 = NaN \<and>
   snd (process_npp proxy_folder) = Some [((2025, 10, 5), Val 100)] \<and>
   Using_chlorophyll_proxy \<in> set (fst (process_npp proxy_folder)) \<and>
   snd (process_npp zero_folder) = Some [((2025, 10, 5), Val 0)] \<and>
   fst (process_npp uniform_folder) =
     [Loaded_successfully ''NPP'' 3, Integrated_NPP_calculated (Val 100) (Val 100) (Val 100)]"
proof -
  have c1: "sorted (depth uniform_column) \<and> 0 \<in> set (depth uniform_column) \<and>
      100 \<in> set (depth uniform_column) \<and> (\<forall>t k i j. data uniform_column t k i j = Val 1) \<and>
      latitude uniform_column \<noteq> [] \<and> longitude uniform_column \<noteq> []"
    by (intro conjI ex_uniform_column)
  from depth_integration [THEN conjunct1, THEN mp, OF c1, THEN conjunct1] obtain b where
    b: "sel_depth uniform_column (0, 100) = Inr b"
       "depth b = filter (\<lambda>x. 0 \<le> x \<and> x \<le> 100) (depth uniform_column)"
       "\<forall>t i j. integrate_depth b t i j = Val (1 * 100)"
       "horizontal_mean b (integrate_depth b) =
          map (\<lambda>t. (t, Val (1 * 100))) (times uniform_column)"
       "npp_integrated uniform_column =
          Inr (map (\<lambda>t. (t, Val (1 * real (length (depth b))))) (times uniform_column))"
    by blast
  have d: "depth b = [0, 50, 100]" using b(2) by (simp only: ex_uniform_window)
  from b(1) d b(3,4,5)
  have first: "\<exists>b. sel_depth uniform_column (0, 100) = Inr b \<and>
       depth b = [0, 50, 100] \<and>
       (\<forall>t i j. integrate_depth b t i j = Val 100) \<and>
       horizontal_mean b (integrate_depth b) = [((2025, 10, 5), Val 100)] \<and>
       npp_integrated uniform_column = Inr [((2025, 10, 5), Val 3)]"
    by (intro exI [of _ b]) (simp add: ex_uniform_times)
  have one: "(1::real) \<noteq> 0" by simp
  have ne: "times (uniform_column\<lparr>latitude := [17], longitude := [73],
            data := (\<lambda>t k i j. data uniform_column t k (0 + i) (0 + j))\<rparr>) \<noteq> []"
    by (simp add: uniform_column_def)
  have c2: "sorted (depth (uniform_column\<lparr>latitude := [17], longitude := [73],
            data := (\<lambda>t k i j. data uniform_column t k (0 + i) (0 + j))\<rparr>)) \<and>
      0 \<in> set (depth (uniform_column\<lparr>latitude := [17], longitude := [73],
            data := (\<lambda>t k i j. data uniform_column t k (0 + i) (0 + j))\<rparr>)) \<and>
      100 \<in> set (depth (uniform_column\<lparr>latitude := [17], longitude := [73],
            data := (\<lambda>t k i j. data uniform_column t k (0 + i) (0 + j))\<rparr>)) \<and>
      (\<forall>t k i j. data (uniform_column\<lparr>latitude := [17], longitude := [73],
            data := (\<lambda>t k i j. data uniform_column t k (0 + i) (0 + j))\<rparr>) t k i j = Val 1) \<and>
      latitude (uniform_column\<lparr>latitude := [17], longitude := [73],
            data := (\<lambda>t k i j. data uniform_column t k (0 + i) (0 + j))\<rparr>) \<noteq> [] \<and>
      longitude (uniform_column\<lparr>latitude := [17], longitude := [73],
            data := (\<lambda>t k i j. data uniform_column t k (0 + i) (0 + j))\<rparr>) \<noteq> []"
    by (intro conjI ex_uniform_subset)
  note second = depth_integration [THEN conjunct1, THEN mp, OF c2, THEN conjunct2, THEN mp,
      OF conjI [OF one conjI [OF ne ex_uniform_extract]], unfolded ex_uniform_subset_times]
  have second': "snd (process_npp uniform_folder) = Some [((2025, 10, 5), Val 100)]"
    using second by simp
  note more = depth_integration [THEN conjunct2]
  note r = more [THEN conjunct1, THEN mp, OF ex_ramp]
  have r1: "integrate_depth ramp_column 0 0 0 = Val 200"
    using r [THEN conjunct1] by (simp add: ramp_column_def)
  have r2: "sum_depth ramp_column 0 0 0 = Val 4"
    using r [THEN conjunct2] by (simp add: ramp_column_def)
  note br = more [THEN conjunct2, THEN conjunct1, THEN mp,
      OF conjI [OF ex_broken(1) conjI [OF ex_broken(2) ex_broken(3)]]]
  note steps = more [THEN conjunct2, THEN conjunct2]
  from extract_uniform_point [OF ex_proxy_folder(1) ex_proxy_folder(2) ex_find_single
      ex_zero_column(1-5), of "''NPP''"]
  obtain zs n where zs:
    "extract_and_process proxy_folder file_prod ''nppv'' ''NPP'' =
       ([Loaded_successfully ''NPP'' n], Some (zs, [(''nppv'', zero_column)]))"
    "depth zs = depth zero_column" "times zs = times zero_column"
    "latitude zs = [17]" "longitude zs = [73]" "\<forall>t k i j. data zs t k i j = Val 0"
    by blast
  from ex_point_series [OF _ _ zs(4,5,6)] zs(2,3) ex_zero_column(6,7)
  obtain zb where zb: "sel_depth zs (0, 100) = Inr zb" "nanmean (all_cells zb) = Val 0"
    "horizontal_mean zb (integrate_depth zb) = [((2025, 10, 5), Val (0 * 100))]"
    by auto
  from extract_uniform_point [OF ex_proxy_folder(1) ex_proxy_folder(3) ex_find_single
      ex_uniform_point(1-4) ex_uniform_column(4), of "''Chlorophyll''"]
  obtain cs m where cs:
    "extract_and_process proxy_folder file_bio ''chl'' ''Chlorophyll'' =
       ([Loaded_successfully ''Chlorophyll'' m], Some (cs, [(''chl'', uniform_column)]))"
    "depth cs = depth uniform_column" "times cs = times uniform_column"
    "latitude cs = [17]" "longitude cs = [73]" "\<forall>t k i j. data cs t k i j = Val 1"
    by blast
  from ex_point_series [OF _ _ cs(4,5,6)] cs(2,3) ex_uniform_point(5) ex_uniform_times
  obtain cb where cb: "sel_depth cs (0, 100) = Inr cb" "nanmean (all_cells cb) = Val 1"
    "horizontal_mean cb (integrate_depth cb) = [((2025, 10, 5), Val (1 * 100))]"
    by auto
  have zmean: "nanmean (all_cells zb) = Val 0 \<or> isnan (nanmean (all_cells zb))"
    using zb(2) by simp
  have cne: "horizontal_mean cb (integrate_depth cb) \<noteq> []" using cb(3) by simp
  note p = steps [THEN conjunct1, THEN mp,
      OF conjI [OF zs(1) conjI [OF zb(1) conjI [OF zmean conjI [OF cs(1) conjI [OF cb(1) cne]]]]]]
  have p1: "snd (process_npp proxy_folder) = Some [((2025, 10, 5), Val 100)]"
    unfolding p cb(3) by simp
  have p2: "Using_chlorophyll_proxy \<in> set (fst (process_npp proxy_folder))"
    unfolding p by simp
  from extract_uniform_point [OF ex_zero_folder(1) ex_zero_folder(3) ex_find_single
      ex_zero_column(1-5), of "''NPP''"]
  obtain ys n' where ys:
    "extract_and_process zero_folder file_prod ''nppv'' ''NPP'' =
       ([Loaded_successfully ''NPP'' n'], Some (ys, [(''nppv'', zero_column)]))"
    "depth ys = depth zero_column" "times ys = times zero_column"
    "latitude ys = [17]" "longitude ys = [73]" "\<forall>t k i j. data ys t k i j = Val 0"
    by blast
  from ex_point_series [OF _ _ ys(4,5,6)] ys(2,3) ex_zero_column(6,7)
  obtain yb where yb: "sel_depth ys (0, 100) = Inr yb" "nanmean (all_cells yb) = Val 0"
    "horizontal_mean yb (integrate_depth yb) = [((2025, 10, 5), Val (0 * 100))]"
    by auto
  have ymean: "nanmean (all_cells yb) = Val 0 \<or> isnan (nanmean (all_cells yb))"
    using yb(2) by simp
  have yne: "horizontal_mean yb (integrate_depth yb) \<noteq> []" using yb(3) by simp
  note q = steps [THEN conjunct2, THEN conjunct1, THEN mp,
      OF conjI [OF ys(1) conjI [OF yb(1) conjI [OF ymean conjI [OF ex_zero_no_chl yne]]]]]
  have q1: "snd (process_npp zero_folder) = Some [((2025, 10, 5), Val 0)]"
    unfolding q yb(3) by simp
  from ex_point_series [of "uniform_column\<lparr>latitude := [17], longitude := [73],
            data := (\<lambda>t k i j. data uniform_column t k (0 + i) (0 + j))\<rparr>" 1]
  obtain ub where ub: "sel_depth (uniform_column\<lparr>latitude := [17], longitude := [73],
            data := (\<lambda>t k i j. data uniform_column t k (0 + i) (0 + j))\<rparr>) (0, 100) = Inr ub"
    "nanmean (all_cells ub) = Val 1"
    "horizontal_mean ub (integrate_depth ub) = [((2025, 10, 5), Val (1 * 100))]"
    by (auto simp: uniform_column_def)
  have umean: "\<not> (nanmean (all_cells ub) = Val 0 \<or> isnan (nanmean (all_cells ub)))"
    using ub(2) by simp
  have une: "horizontal_mean ub (integrate_depth ub) \<noteq> []" using ub(3) by simp
  note w = steps [THEN conjunct2, THEN conjunct2, THEN mp,
      OF conjI [OF ex_uniform_extract conjI [OF ub(1) conjI [OF umean une]]]]
  have w1: "fst (process_npp uniform_folder) =
     [Loaded_successfully ''NPP'' 3, Integrated_NPP_calculated (Val 100) (Val 100) (Val 100)]"
    unfolding w ub(3) by (simp add: nanmean_def nanmin_def nanmax_def)
  from first second' r1 r2 br p1 p2 q1 w1 show ?thesis by (intro conjI)
qed

text \<open>
  Claim C7, as stated, at bio\_3d.py: for the array that equals 1 at the depths 0, 50 and
  100 the integrated production is 3, not \<open>1 * 100\<close>.
\<close>

theorem depth_integration_counterexample:
  "sorted (depth uniform_column) \<and> hd (depth uniform_column) = 0 \<and>
   last (depth uniform_column) = 100 \<and>
   data uniform_column 0 0 0 0 = Val 1 \<and> data uniform_column 0 1 0 0 = Val 1 \<and>
   data uniform_column 0 2 0 0 = Val 1 \<and>
   npp_integrated uniform_column = Inr [((2025, 10, 5), Val 3)]"
proof -
  from integrate_uniform_window [OF ex_uniform_column(1-4)] obtain b where
    b: "sel_depth uniform_column (0, 100) = Inr b"
       "depth b = filter (\<lambda>x. 0 \<le> x \<and> x \<le> 100) (depth uniform_column)"
       "times b = times uniform_column" "latitude b = latitude uniform_column"
       "longitude b = longitude uniform_column"
       "\<forall>t i j. sum_depth b t i j = Val (1 * real (length (depth b)))"
    by blast
  have ne: "latitude b \<noteq> []" "longitude b \<noteq> []"
    using b(4,5) ex_uniform_column(5,6) by simp_all
  have "npp_integrated uniform_column = Inr [((2025, 10, 5), Val 3)]"
    using horizontal_mean_const [OF ne b(6)] b(1,2,3)
    by (simp add: npp_integrated_def ex_uniform_window ex_uniform_times)
  then show ?thesis by (simp add: uniform_column_def)
qed

end
